theory Spec2Isabelle
  imports Complex_Main "HOL-Library.Log_Nat" "HOL-Library.AList" "HOL-Library.Sublist"
begin

section \<open>JavaScript numbers\<close>

text \<open>
  A JavaScript \<^verbatim>\<open>Number\<close> is an IEEE-754 binary64 value. The finite ones are
  rationals; the other three values are kept apart because \<^verbatim>\<open>BigInt(x)\<close> throws on
  each of them and comparisons treat them differently. The sign of zero is not
  modelled. A zero divisor occurs in the modelled code only as the numeric value of a
  price string such as \<^verbatim>\<open>"0"\<close> or \<^verbatim>\<open>"-0"\<close>; the quotient is then an infinity or
  \<^verbatim>\<open>NaN\<close>, and every test on it in the code takes the same branch for both infinities.
\<close>

datatype jsnum = Fin rat | PosInf | NegInf | NaN

definition pow2 :: "int \<Rightarrow> rat" where
  "pow2 k = (if 0 \<le> k then 2 ^ nat k else 1 / 2 ^ nat (- k))"

text \<open>\<open>ilog2 x\<close> is the integer part of the binary logarithm of a positive rational.\<close>

definition ilog2 :: "rat \<Rightarrow> int" where
  "ilog2 x = (if 1 \<le> x then bitlen \<lfloor>x\<rfloor> - 1 else - bitlen (\<lceil>1 / x\<rceil> - 1))"

definition roundHalfEven :: "rat \<Rightarrow> int" where
  "roundHalfEven x =
     (let f = \<lfloor>x\<rfloor>; r = x - of_int f
      in if r < 1 / 2 then f else if 1 / 2 < r then f + 1 else if even f then f else f + 1)"

text \<open>
  Rounding of an exact result to binary64, round-to-nearest, ties to even: 53 significant
  bits, least normal exponent \<open>-1022\<close> (below it the spacing stays \<open>2^-1074\<close>), overflow
  to an infinity from \<open>2^1024 - 2^970\<close> on.
\<close>

definition toDouble :: "rat \<Rightarrow> jsnum" where
  "toDouble x =
     (if x = 0 then Fin 0
      else let a = \<bar>x\<bar>;
               e = max (ilog2 a) (- 1022);
               ulp = pow2 (e - 52);
               m = roundHalfEven (a / ulp)
           in if 1023 < e \<or> (e = 1023 \<and> m = 2 ^ 53)
              then (if 0 < x then PosInf else NegInf)
              else Fin (sgn x * (of_int m * ulp)))"

text \<open>The operators \<^verbatim>\<open>/\<close>, \<^verbatim>\<open>*\<close>, \<^verbatim>\<open>+\<close> and \<^verbatim>\<open>-\<close> on numbers: the exact
  result, rounded.\<close>

fun fdiv :: "jsnum \<Rightarrow> jsnum \<Rightarrow> jsnum" where
  "fdiv (Fin a) (Fin b) =
     (if b = 0 then (if a = 0 then NaN else if 0 < a then PosInf else NegInf)
      else toDouble (a / b))"
| "fdiv (Fin a) PosInf = Fin 0"
| "fdiv (Fin a) NegInf = Fin 0"
| "fdiv PosInf (Fin b) = (if b < 0 then NegInf else PosInf)"
| "fdiv NegInf (Fin b) = (if b < 0 then PosInf else NegInf)"
| "fdiv _ _ = NaN"

fun fmul :: "jsnum \<Rightarrow> jsnum \<Rightarrow> jsnum" where
  "fmul (Fin a) (Fin b) = toDouble (a * b)"
| "fmul (Fin a) PosInf = (if a = 0 then NaN else if 0 < a then PosInf else NegInf)"
| "fmul (Fin a) NegInf = (if a = 0 then NaN else if 0 < a then NegInf else PosInf)"
| "fmul PosInf (Fin b) = (if b = 0 then NaN else if 0 < b then PosInf else NegInf)"
| "fmul NegInf (Fin b) = (if b = 0 then NaN else if 0 < b then NegInf else PosInf)"
| "fmul PosInf PosInf = PosInf"
| "fmul PosInf NegInf = NegInf"
| "fmul NegInf PosInf = NegInf"
| "fmul NegInf NegInf = PosInf"
| "fmul _ _ = NaN"

fun fadd :: "jsnum \<Rightarrow> jsnum \<Rightarrow> jsnum" where
  "fadd (Fin a) (Fin b) = toDouble (a + b)"
| "fadd NaN _ = NaN"
| "fadd _ NaN = NaN"
| "fadd PosInf NegInf = NaN"
| "fadd NegInf PosInf = NaN"
| "fadd PosInf _ = PosInf"
| "fadd _ PosInf = PosInf"
| "fadd NegInf _ = NegInf"
| "fadd _ NegInf = NegInf"

fun fneg :: "jsnum \<Rightarrow> jsnum" where
  "fneg (Fin a) = Fin (- a)"
| "fneg PosInf = NegInf"
| "fneg NegInf = PosInf"
| "fneg NaN = NaN"

definition fsub :: "jsnum \<Rightarrow> jsnum \<Rightarrow> jsnum" where
  "fsub a b = fadd a (fneg b)"

text \<open>\<^verbatim>\<open>a < b\<close> on numbers: false as soon as one side is \<^verbatim>\<open>NaN\<close>.\<close>

fun fless :: "jsnum \<Rightarrow> jsnum \<Rightarrow> bool" where
  "fless (Fin a) (Fin b) = (a < b)"
| "fless NaN _ = False"
| "fless _ NaN = False"
| "fless _ NegInf = False"
| "fless PosInf _ = False"
| "fless NegInf _ = True"
| "fless _ PosInf = True"

fun mathFloor :: "jsnum \<Rightarrow> jsnum" where
  "mathFloor (Fin a) = Fin (of_int \<lfloor>a\<rfloor>)"
| "mathFloor x = x"

text \<open>
  \<^verbatim>\<open>10 ** d\<close> and \<^verbatim>\<open>Math.pow(10, d)\<close>: the language leaves the precision of
  exponentiation to the implementation, and engines differ from the correctly rounded
  power in the last bit for some exponents. The power of ten is therefore a parameter of
  the model, which every function that uses it receives.
\<close>

record engine =
  pow10 :: "nat \<Rightarrow> jsnum"

datatype js_error = RangeError | Error string

text \<open>\<^verbatim>\<open>BigInt(x)\<close> of a number throws a \<^verbatim>\<open>RangeError\<close> unless \<open>x\<close> is an integer.\<close>

fun toBigInt :: "jsnum \<Rightarrow> js_error + int" where
  "toBigInt (Fin a) = (if of_int \<lfloor>a\<rfloor> = a then Inr \<lfloor>a\<rfloor> else Inl RangeError)"
| "toBigInt _ = Inl RangeError"

text \<open>\<^verbatim>\<open>Number(n)\<close> of a \<^verbatim>\<open>BigInt\<close>.\<close>

definition ofBigInt :: "int \<Rightarrow> jsnum" where
  "ofBigInt n = toDouble (of_int n)"

section \<open>Strings\<close>

text \<open>\<^verbatim>\<open>toLowerCase\<close> on the ASCII letters, which is all an address holds.\<close>

definition lowerChar :: "char \<Rightarrow> char" where
  "lowerChar c =
     (let n = (of_char c :: nat) in if 65 \<le> n \<and> n \<le> 90 then char_of (n + 32) else c)"

definition toLowerCase :: "string \<Rightarrow> string" where
  "toLowerCase a = map lowerChar a"

text \<open>
  The conversion of a string to a number, as \<^verbatim>\<open>Number(s)\<close> and the arithmetic and
  relational operators apply it: white space is trimmed; the empty string is zero; then
  comes a literal with a radix prefix (\<^verbatim>\<open>0x\<close>, \<^verbatim>\<open>0o\<close>, \<^verbatim>\<open>0b\<close>, unsigned), or an
  optional sign followed by \<^verbatim>\<open>Infinity\<close> or by a decimal literal with optional fraction
  and exponent; anything else is \<^verbatim>\<open>NaN\<close>. The value is rounded to a double. Characters
  are the 256 of type \<^typ>\<open>char\<close>, so of the white space beyond ASCII only the no-break
  space is there.
\<close>

definition isWhiteSpace :: "char \<Rightarrow> bool" where
  "isWhiteSpace c = (let n = (of_char c :: nat) in (9 \<le> n \<and> n \<le> 13) \<or> n = 32 \<or> n = 160)"

definition trim :: "string \<Rightarrow> string" where
  "trim s = rev (dropWhile isWhiteSpace (rev (dropWhile isWhiteSpace s)))"

definition digitOf :: "char \<Rightarrow> int option" where
  "digitOf c =
     (let n = (of_char c :: nat)
      in if 48 \<le> n \<and> n \<le> 57 then Some (int n - 48)
         else if 97 \<le> n \<and> n \<le> 102 then Some (int n - 87)
         else if 65 \<le> n \<and> n \<le> 70 then Some (int n - 55)
         else None)"

definition isDigitIn :: "int \<Rightarrow> char \<Rightarrow> bool" where
  "isDigitIn radix c = (case digitOf c of None \<Rightarrow> False | Some v \<Rightarrow> v < radix)"

definition digitsValue :: "int \<Rightarrow> string \<Rightarrow> int" where
  "digitsValue radix ds =
     foldl (\<lambda>a c. radix * a + (case digitOf c of None \<Rightarrow> 0 | Some v \<Rightarrow> v)) 0 ds"

definition decimalDigits :: "string \<Rightarrow> bool" where
  "decimalDigits ds = (ds \<noteq> [] \<and> list_all (isDigitIn 10) ds)"

definition tenToThe :: "int \<Rightarrow> rat" where
  "tenToThe k = (if 0 \<le> k then 10 ^ nat k else 1 / 10 ^ nat (- k))"

text \<open>The exponent that follows the digits of a decimal literal; none is exponent zero.\<close>

definition exponentPart :: "string \<Rightarrow> int option" where
  "exponentPart r =
     (case r of
        [] \<Rightarrow> Some 0
      | c # ds \<Rightarrow>
          if c = CHR ''e'' \<or> c = CHR ''E''
          then (case ds of
                  [] \<Rightarrow> None
                | d # ds' \<Rightarrow>
                    if d = CHR ''-''
                    then (if decimalDigits ds' then Some (- digitsValue 10 ds') else None)
                    else if d = CHR ''+''
                    then (if decimalDigits ds' then Some (digitsValue 10 ds') else None)
                    else (if decimalDigits ds then Some (digitsValue 10 ds) else None))
          else None)"

definition unsignedDecimal :: "string \<Rightarrow> rat option" where
  "unsignedDecimal u =
     (let ip = takeWhile (isDigitIn 10) u;
          r1 = dropWhile (isDigitIn 10) u;
          (fp, r2) = (case r1 of
                        [] \<Rightarrow> ([], r1)
                      | c # r \<Rightarrow>
                          if c = CHR ''.''
                          then (takeWhile (isDigitIn 10) r, dropWhile (isDigitIn 10) r)
                          else ([], r1))
      in if ip = [] \<and> fp = [] then None
         else (case exponentPart r2 of
                 None \<Rightarrow> None
               | Some e \<Rightarrow>
                   Some (of_int (digitsValue 10 (ip @ fp)) * tenToThe (e - int (length fp)))))"

definition radixLiteral :: "string \<Rightarrow> int option" where
  "radixLiteral t =
     (case t of
        z # x # ds \<Rightarrow>
          (let radix = (if x = CHR ''x'' \<or> x = CHR ''X'' then 16
                        else if x = CHR ''o'' \<or> x = CHR ''O'' then 8
                        else if x = CHR ''b'' \<or> x = CHR ''B'' then 2
                        else 0)
           in if z = CHR ''0'' \<and> radix \<noteq> 0 \<and> ds \<noteq> [] \<and> list_all (isDigitIn radix) ds
              then Some (digitsValue radix ds) else None)
      | _ \<Rightarrow> None)"

definition stringToNumber :: "string \<Rightarrow> jsnum" where
  "stringToNumber s =
     (let t = trim s
      in case t of
           [] \<Rightarrow> Fin 0
         | c # r \<Rightarrow>
             (case radixLiteral t of
                Some n \<Rightarrow> toDouble (of_int n)
              | None \<Rightarrow>
                  (let negative = (c = CHR ''-'');
                       u = (if c = CHR ''-'' \<or> c = CHR ''+'' then r else t)
                   in if u = ''Infinity'' then (if negative then NegInf else PosInf)
                      else (case unsignedDecimal u of
                              None \<Rightarrow> NaN
                            | Some q \<Rightarrow> toDouble (if negative then - q else q)))))"

section \<open>Values\<close>

text \<open>
  The values that a field of a parsed price response is taken to hold: a number, a string,
  or nothing (\<^verbatim>\<open>undefined\<close>, the value of a field that is absent).
\<close>

datatype jsval = Undefined | Num jsnum | Str string

text \<open>Truthiness, as \<^verbatim>\<open>||\<close>, \<^verbatim>\<open>&&\<close> and \<^verbatim>\<open>if\<close> test it: a number unless it is zero or
  \<^verbatim>\<open>NaN\<close>, a string unless it is empty.\<close>

fun truthy :: "jsval \<Rightarrow> bool" where
  "truthy Undefined = False"
| "truthy (Num (Fin a)) = (a \<noteq> 0)"
| "truthy (Num NaN) = False"
| "truthy (Num PosInf) = True"
| "truthy (Num NegInf) = True"
| "truthy (Str s) = (s \<noteq> [])"

text \<open>\<^verbatim>\<open>a || b\<close>\<close>

definition orElse :: "jsval \<Rightarrow> jsval \<Rightarrow> jsval" where
  "orElse a b = (if truthy a then a else b)"

text \<open>The number that arithmetic and the comparison \<^verbatim>\<open>x > 0\<close> make of a value.\<close>

fun toNumber :: "jsval \<Rightarrow> jsnum" where
  "toNumber Undefined = NaN"
| "toNumber (Num x) = x"
| "toNumber (Str s) = stringToNumber s"

section \<open>The price oracle (priceOracle.js)\<close>

subsection \<open>State and environment\<close>

text \<open>
  The module keeps a \<^verbatim>\<open>Map\<close> from lower-case address to \<^verbatim>\<open>{price, source, timestamp}\<close>
  and the times of the last call to each price source. The state below adds the clock
  that \<^verbatim>\<open>Date.now()\<close> reads, the list of HTTP requests sent so far (to speak about
  network access), and the token snapshot that the price cache service (priceCache.js)
  keeps in a variable of its own.
\<close>

record cache_entry =
  entry_price :: jsval
  entry_source :: string
  timestamp :: int

datatype request = CoinGeckoRequest "string list" | MoralisRequest string

record cached_token =
  ct_address :: string
  ct_decimals :: nat
  ct_balance :: int
  ct_price :: jsval

record oracle_state =
  priceCache :: "string \<rightharpoonup> cache_entry"
  lastCoinGeckoCall :: int
  lastMoralisCall :: int
  clock :: int
  requests :: "request list"
  snapshot :: "cached_token list"

text \<open>
  A reply of a price source: the time the request took, and the parsed JSON body, or
  \<open>None\<close> when \<^verbatim>\<open>fetch\<close> threw, the status was not ok or the body was not JSON.
  CoinGecko answers with an object from address to an object with a field \<^verbatim>\<open>usd\<close>,
  given here as the list of the addresses with the values of that field; Moralis answers
  with an object of which the fields \<^verbatim>\<open>usdPrice\<close> and \<^verbatim>\<open>usdPriceFormatted\<close> are read
  (the services document \<^verbatim>\<open>usd\<close> and \<^verbatim>\<open>usdPrice\<close> as numbers and
  \<^verbatim>\<open>usdPriceFormatted\<close> as a string). Replies may depend on the time of the request.
\<close>

record 'a reply =
  elapsed :: nat
  body :: "'a option"

record moralis_data =
  usdPrice :: jsval
  usdPriceFormatted :: jsval

record network =
  coingecko :: "int \<Rightarrow> string list \<Rightarrow> (string \<times> jsval) list reply"
  moralis :: "int \<Rightarrow> string \<Rightarrow> moralis_data reply"

definition CACHE_TTL :: int where
  "CACHE_TTL = 5 * 60 * 1000"

definition COINGECKO_RATE_LIMIT :: int where
  "COINGECKO_RATE_LIMIT = 1200"

definition MORALIS_RATE_LIMIT :: int where
  "MORALIS_RATE_LIMIT = 500"

subsection \<open>Fetching\<close>

text \<open>The time after the rate limiter has slept as long as it must.\<close>

definition afterRateLimit :: "int \<Rightarrow> int \<Rightarrow> int \<Rightarrow> int" where
  "afterRateLimit limit lastCall t =
     (let timeSinceLastCall = t - lastCall
      in if timeSinceLastCall < limit then t + (limit - timeSinceLastCall) else t)"

datatype fetch_result = FetchOk "(string \<times> jsval) list" | FetchFailed

definition fetchFromCoinGecko ::
  "network \<Rightarrow> string list \<Rightarrow> oracle_state \<Rightarrow> fetch_result \<times> oracle_state" where
  "fetchFromCoinGecko net tokenAddresses s =
     (let t = afterRateLimit COINGECKO_RATE_LIMIT (lastCoinGeckoCall s) (clock s);
          addressList = map toLowerCase tokenAddresses;
          r = coingecko net t addressList;
          s' = s\<lparr>lastCoinGeckoCall := t, clock := t + int (elapsed r),
                 requests := requests s @ [CoinGeckoRequest addressList]\<rparr>
      in case body r of
           None \<Rightarrow> (FetchFailed, s')
         | Some entries \<Rightarrow>
             (FetchOk (fold (\<lambda>(address, usd).
                               AList.update (toLowerCase address) (orElse usd (Num (Fin 0))))
                         entries []), s'))"

definition fetchFromMoralis ::
  "network \<Rightarrow> string \<Rightarrow> oracle_state \<Rightarrow> fetch_result \<times> oracle_state" where
  "fetchFromMoralis net tokenAddress s =
     (let t = afterRateLimit MORALIS_RATE_LIMIT (lastMoralisCall s) (clock s);
          r = moralis net t tokenAddress;
          s' = s\<lparr>lastMoralisCall := t, clock := t + int (elapsed r),
                 requests := requests s @ [MoralisRequest tokenAddress]\<rparr>
      in case body r of
           None \<Rightarrow> (FetchFailed, s')
         | Some data \<Rightarrow>
             (let price = orElse (orElse (usdPrice data) (usdPriceFormatted data)) (Num (Fin 0))
              in (FetchOk [(toLowerCase tokenAddress, price)], s')))"

text \<open>\<^verbatim>\<open>result.success && result.prices[key]\<close>: the price when it is there and truthy.\<close>

fun pricedBy :: "fetch_result \<Rightarrow> string \<Rightarrow> jsval option" where
  "pricedBy FetchFailed key = None"
| "pricedBy (FetchOk prices) key =
     (case map_of prices key of
        None \<Rightarrow> None
      | Some p \<Rightarrow> if truthy p then Some p else None)"

subsection \<open>The cache\<close>

record price_data =
  price :: jsval
  cached :: bool
  source :: string
  error :: "string option"

definition getCachedPrice :: "string \<Rightarrow> oracle_state \<Rightarrow> price_data option" where
  "getCachedPrice tokenAddress s =
     (case priceCache s (toLowerCase tokenAddress) of
        None \<Rightarrow> None
      | Some c \<Rightarrow>
          if clock s - timestamp c < CACHE_TTL
          then Some \<lparr>price = entry_price c, cached = True, source = entry_source c, error = None\<rparr>
          else None)"

definition setCachePrice :: "string \<Rightarrow> jsval \<Rightarrow> string \<Rightarrow> oracle_state \<Rightarrow> oracle_state" where
  "setCachePrice tokenAddress p src s =
     s\<lparr>priceCache := (priceCache s)(toLowerCase tokenAddress \<mapsto>
          \<lparr>entry_price = p, entry_source = src, timestamp = clock s\<rparr>)\<rparr>"

subsection \<open>Single lookup\<close>

text \<open>
  \<^verbatim>\<open>getTokenPrice\<close>: the cache first, then CoinGecko, then Moralis. Nothing in the body
  throws (both fetch functions catch their own errors), so the handler that would answer
  \<^verbatim>\<open>{price: 0, source: "none"}\<close> for an exception has no branch here.
\<close>

definition getTokenPrice :: "network \<Rightarrow> string \<Rightarrow> oracle_state \<Rightarrow> price_data \<times> oracle_state" where
  "getTokenPrice net tokenAddress s =
     (case getCachedPrice tokenAddress s of
        Some c \<Rightarrow> (c, s)
      | None \<Rightarrow>
          (let (cgResult, s1) = fetchFromCoinGecko net [tokenAddress] s
           in case pricedBy cgResult (toLowerCase tokenAddress) of
                Some p \<Rightarrow>
                  (\<lparr>price = p, cached = False, source = ''coingecko'', error = None\<rparr>,
                   setCachePrice tokenAddress p ''coingecko'' s1)
              | None \<Rightarrow>
                  (let (moralisResult, s2) = fetchFromMoralis net tokenAddress s1
                   in case pricedBy moralisResult (toLowerCase tokenAddress) of
                        Some p \<Rightarrow>
                          (\<lparr>price = p, cached = False, source = ''moralis'', error = None\<rparr>,
                           setCachePrice tokenAddress p ''moralis'' s2)
                      | None \<Rightarrow>
                          (\<lparr>price = Num (Fin 0), cached = False, source = ''none'',
                            error = Some ''All sources failed''\<rparr>, s2))))"

subsection \<open>Batch lookup\<close>

type_synonym results = "string \<rightharpoonup> price_data"

text \<open>
  The three loops of \<^verbatim>\<open>getTokenPrices\<close>, each as its body folded over the list it
  runs over. Nothing in the body throws, so the handler that would answer \<^verbatim>\<open>{}\<close> has
  no branch. First loop: cached addresses go to the results, the others are collected.
\<close>

definition cacheStep ::
  "oracle_state \<Rightarrow> string \<Rightarrow> results \<times> string list \<Rightarrow> results \<times> string list" where
  "cacheStep s address acc =
     (let (res, uncachedAddresses) = acc
      in case getCachedPrice address s of
           Some c \<Rightarrow> (res(toLowerCase address \<mapsto> c), uncachedAddresses)
         | None \<Rightarrow> (res, uncachedAddresses @ [address]))"

text \<open>Second loop, over the entries of the CoinGecko prices: those above zero are cached
  and entered in the results, under the key of the response.\<close>

definition coinGeckoStep ::
  "string \<times> jsval \<Rightarrow> results \<times> oracle_state \<Rightarrow> results \<times> oracle_state" where
  "coinGeckoStep entry acc =
     (let (address, p) = entry; (res, s) = acc
      in if fless (Fin 0) (toNumber p)
         then (res(address \<mapsto> \<lparr>price = p, cached = False, source = ''coingecko'', error = None\<rparr>),
               setCachePrice address p ''coingecko'' s)
         else (res, s))"

text \<open>\<^verbatim>\<open>!results[key] || results[key].price === 0\<close>\<close>

definition unpriced :: "results \<Rightarrow> string \<Rightarrow> bool" where
  "unpriced res key = (case res key of None \<Rightarrow> True | Some r \<Rightarrow> price r = Num (Fin 0))"

text \<open>Third loop: one Moralis call for each uncached address that is still unpriced.\<close>

definition moralisStep ::
  "network \<Rightarrow> string \<Rightarrow> results \<times> oracle_state \<Rightarrow> results \<times> oracle_state" where
  "moralisStep net address acc =
     (let (res, s) = acc
      in if unpriced res (toLowerCase address)
         then (let (moralisResult, s1) = fetchFromMoralis net address s
               in case pricedBy moralisResult (toLowerCase address) of
                    Some p \<Rightarrow>
                      (res(toLowerCase address \<mapsto>
                         \<lparr>price = p, cached = False, source = ''moralis'', error = None\<rparr>),
                       setCachePrice address p ''moralis'' s1)
                  | None \<Rightarrow>
                      (res(toLowerCase address \<mapsto>
                         \<lparr>price = Num (Fin 0), cached = False, source = ''none'',
                          error = Some ''All sources failed''\<rparr>), s1))
         else (res, s))"

definition getTokenPrices :: "network \<Rightarrow> string list \<Rightarrow> oracle_state \<Rightarrow> results \<times> oracle_state" where
  "getTokenPrices net tokenAddresses s =
     (let (res, uncachedAddresses) = fold (cacheStep s) tokenAddresses (Map.empty, [])
      in if uncachedAddresses = [] then (res, s)
         else (let (cgResult, s1) = fetchFromCoinGecko net uncachedAddresses s;
                   acc1 = (case cgResult of
                             FetchOk prices \<Rightarrow> fold coinGeckoStep prices (res, s1)
                           | FetchFailed \<Rightarrow> (res, s1))
               in fold (moralisStep net) uncachedAddresses acc1))"

subsection \<open>Wallet value\<close>

text \<open>
  \<^verbatim>\<open>calculateWalletValue\<close> takes objects \<^verbatim>\<open>{address, amount, decimals}\<close>; a field a
  caller leaves out is \<^verbatim>\<open>undefined\<close>, here \<open>None\<close>, and both \<^verbatim>\<open>Number(undefined)\<close>
  and \<^verbatim>\<open>Math.pow(10, undefined)\<close> are \<^verbatim>\<open>NaN\<close>. Every address is a string, so
  nothing in the body throws and its handler has no branch.
\<close>

record wallet_token =
  wt_address :: string
  wt_amount :: "int option"
  wt_decimals :: "nat option"

record token_value =
  tv_address :: string
  tv_amount :: jsnum
  tv_price :: jsval
  tv_usd :: jsnum
  tv_source :: string

record wallet_value =
  totalValue :: jsnum
  tokenValues :: "token_value list"

fun numberOfAmount :: "int option \<Rightarrow> jsnum" where
  "numberOfAmount None = NaN"
| "numberOfAmount (Some n) = ofBigInt n"

fun mathPow10 :: "engine \<Rightarrow> nat option \<Rightarrow> jsnum" where
  "mathPow10 eng None = NaN"
| "mathPow10 eng (Some d) = pow10 eng d"

definition valueStep ::
  "engine \<Rightarrow> results \<Rightarrow> wallet_token \<Rightarrow> wallet_value \<Rightarrow> wallet_value" where
  "valueStep eng prices t acc =
     (let amount = fdiv (numberOfAmount (wt_amount t)) (mathPow10 eng (wt_decimals t));
          unpricedLine = \<lparr>tv_address = wt_address t, tv_amount = amount,
                          tv_price = Num (Fin 0), tv_usd = Fin 0, tv_source = ''none''\<rparr>
      in case prices (toLowerCase (wt_address t)) of
           None \<Rightarrow> acc\<lparr>tokenValues := tokenValues acc @ [unpricedLine]\<rparr>
         | Some priceData \<Rightarrow>
             if fless (Fin 0) (toNumber (price priceData))
             then (let v = fmul amount (toNumber (price priceData))
                   in \<lparr>totalValue = fadd (totalValue acc) v,
                       tokenValues = tokenValues acc @
                         [\<lparr>tv_address = wt_address t, tv_amount = amount,
                           tv_price = price priceData, tv_usd = v,
                           tv_source = source priceData\<rparr>]\<rparr>)
             else acc\<lparr>tokenValues := tokenValues acc @ [unpricedLine]\<rparr>)"

definition calculateWalletValue ::
  "engine \<Rightarrow> network \<Rightarrow> wallet_token list \<Rightarrow> oracle_state
     \<Rightarrow> wallet_value \<times> oracle_state" where
  "calculateWalletValue eng net toks s =
     (let addresses = map wt_address toks;
          (prices, s') = getTokenPrices net addresses s
      in (fold (valueStep eng prices) toks \<lparr>totalValue = Fin 0, tokenValues = []\<rparr>, s'))"

section \<open>Token selection (index.js)\<close>

subsection \<open>The chain\<close>

text \<open>
  What the contract reads return; \<open>None\<close> is a read that throws. Balances and the
  estimated value of a purchase are \<^verbatim>\<open>BigInt\<close>s, decoded from \<^verbatim>\<open>uint256\<close>; decimals
  are a \<^verbatim>\<open>uint8\<close>. Nothing below depends on the bounds.
\<close>

record chain =
  getTokenBalance :: "string \<Rightarrow> int option"
  decimalsOf :: "string \<Rightarrow> nat option"
  symbolOf :: "string \<Rightarrow> string option"
  getActiveSponsors :: "string list option"

record token =
  address :: string
  balance :: int
  decimals :: nat
  symbol :: string

definition tokensToCheck :: "string list" where
  "tokensToCheck =
     [''0x833589fCD6eDb6E08f4c7C32D4f71b54bdA02913'',
      ''0x4ed4E862860beD51a9570b96d89aF5E1B0Efefed'',
      ''0x4200000000000000000000000000000000000006'',
      ''0x50c5725949A6F0c72E6C4a641F24049A917DB0Cb'',
      ''0x2Ae3F1Ec7F1F5012CFEab0185bfc7aa3cf0DEc22'',
      ''0xd9aAEc86B65D86f6A7B5B1b0c42FFA531710b6CA'',
      ''0x940181a94A35A4569E4529A3CDfB74e38FD98631'']"

text \<open>The body of the loop over the watch list: a token is kept when its balance is
  above zero and all three reads succeed; a read that throws skips the token.\<close>

definition availableStep :: "chain \<Rightarrow> string \<Rightarrow> token list \<Rightarrow> token list" where
  "availableStep ch tokenAddress availableTokens =
     (case getTokenBalance ch tokenAddress of
        None \<Rightarrow> availableTokens
      | Some b \<Rightarrow>
          if 0 < b
          then (case decimalsOf ch tokenAddress of
                  None \<Rightarrow> availableTokens
                | Some d \<Rightarrow>
                    (case symbolOf ch tokenAddress of
                       None \<Rightarrow> availableTokens
                     | Some sy \<Rightarrow>
                         availableTokens @
                           [\<lparr>address = tokenAddress, balance = b, decimals = d, symbol = sy\<rparr>]))
          else availableTokens)"

definition getAvailableTokensInTreasury :: "chain \<Rightarrow> token list" where
  "getAvailableTokensInTreasury ch = fold (availableStep ch) tokensToCheck []"

subsection \<open>Selection\<close>

record selection =
  tokens :: "string list"
  amounts :: "int list"

text \<open>
  The body of both loops (sponsor tokens, other tokens) is the same but for its log
  lines: look the price up; skip a price that is the number zero (\<^verbatim>\<open>=== 0\<close>, which no
  string is); compute the amount in doubles; push the whole balance when the amount
  exceeds it, the amount otherwise. \<^verbatim>\<open>BigInt\<close> throwing lands in the loop's own
  handler, which only warns.
\<close>

definition tokenAmountOf :: "engine \<Rightarrow> jsnum \<Rightarrow> jsval \<Rightarrow> nat \<Rightarrow> jsnum" where
  "tokenAmountOf eng valuePerToken tokenPrice d =
     mathFloor (fmul (fdiv valuePerToken (toNumber tokenPrice)) (pow10 eng d))"

definition processToken ::
  "engine \<Rightarrow> network \<Rightarrow> jsnum \<Rightarrow> token \<Rightarrow> selection \<times> oracle_state
     \<Rightarrow> selection \<times> oracle_state" where
  "processToken eng net valuePerToken tok acc =
     (let (sel, s) = acc;
          (priceData, s1) = getTokenPrice net (address tok) s;
          tokenPrice = price priceData
      in if tokenPrice = Num (Fin 0) then (sel, s1)
         else (case toBigInt (tokenAmountOf eng valuePerToken tokenPrice (decimals tok)) of
                 Inl e \<Rightarrow> (sel, s1)
               | Inr n \<Rightarrow>
                   if balance tok < n
                   then (\<lparr>tokens = tokens sel @ [address tok],
                          amounts = amounts sel @ [balance tok]\<rparr>, s1)
                   else (\<lparr>tokens = tokens sel @ [address tok],
                          amounts = amounts sel @ [n]\<rparr>, s1)))"

definition walletTokensOf :: "selection \<Rightarrow> wallet_token list" where
  "walletTokensOf sel =
     map (\<lambda>a. \<lparr>wt_address = a, wt_amount = None, wt_decimals = None\<rparr>) (tokens sel)"

text \<open>
  Step 5 of \<^verbatim>\<open>selectTokensForTier\<close>: the sponsor tokens found in the treasury share
  the sponsor value equally.
\<close>

definition sponsorPass ::
  "engine \<Rightarrow> network \<Rightarrow> token list \<Rightarrow> jsnum \<Rightarrow> selection \<times> oracle_state
     \<Rightarrow> selection \<times> oracle_state" where
  "sponsorPass eng net sponsorTokensInTreasury sponsorValue acc =
     (if sponsorTokensInTreasury \<noteq> []
      then (let valuePerSponsor =
                  fdiv sponsorValue (Fin (of_nat (length sponsorTokensInTreasury)))
            in fold (processToken eng net valuePerSponsor) sponsorTokensInTreasury acc)
      else acc)"

text \<open>
  Step 6: up to three of the other tokens, drawn by \<open>shuffle\<close>, which stands for
  \<^verbatim>\<open>[...xs].sort(() => Math.random() - 0.5)\<close>.
\<close>

definition otherPass ::
  "engine \<Rightarrow> network \<Rightarrow> (token list \<Rightarrow> token list) \<Rightarrow> token list \<Rightarrow> jsnum
     \<Rightarrow> selection \<times> oracle_state \<Rightarrow> selection \<times> oracle_state" where
  "otherPass eng net shuffle nonSponsorTokens otherValue acc =
     (let numOtherTokens = min 3 (length nonSponsorTokens)
      in if 0 < numOtherTokens \<and> fless (Fin 0) otherValue
         then (let valuePerToken = fdiv otherValue (Fin (of_nat numOtherTokens));
                   selectedOther = take numOtherTokens (shuffle nonSponsorTokens)
               in fold (processToken eng net valuePerToken) selectedOther acc)
         else acc)"

text \<open>Step 2: the active sponsors; a read that throws is logged and counts as none.\<close>

definition fetchSponsors :: "chain \<Rightarrow> string list" where
  "fetchSponsors ch = (case getActiveSponsors ch of Some l \<Rightarrow> l | None \<Rightarrow> [])"

text \<open>
  The fallback: when nothing was selected, the first available token, with the smaller
  of the estimated value and its balance as amount.
\<close>

definition fallbackStep :: "token list \<Rightarrow> int \<Rightarrow> selection \<Rightarrow> js_error + selection" where
  "fallbackStep availableTokens estimatedValue sel =
     (if tokens sel = []
      then (case availableTokens of
              [] \<Rightarrow> Inl (Error ''No tokens available for fallback'')
            | fallbackToken # _ \<Rightarrow>
                (let requestedAmount = estimatedValue;
                     availableAmount = balance fallbackToken;
                     amountToUse = (if requestedAmount < availableAmount
                                    then requestedAmount else availableAmount)
                 in Inr \<lparr>tokens = [address fallbackToken], amounts = [amountToUse]\<rparr>))
      else Inr sel)"

text \<open>
  The \<^verbatim>\<open>try\<close> block of \<^verbatim>\<open>selectTokensForTier\<close>. The objects handed to
  \<^verbatim>\<open>calculateWalletValue\<close> carry \<^verbatim>\<open>address\<close> and \<^verbatim>\<open>balance\<close> only; its result is
  logged and dropped.
\<close>

definition selectTokensForTier_try ::
  "engine \<Rightarrow> network \<Rightarrow> chain \<Rightarrow> (token list \<Rightarrow> token list) \<Rightarrow> nat \<Rightarrow> int
     \<Rightarrow> oracle_state \<Rightarrow> (js_error + selection) \<times> oracle_state" where
  "selectTokensForTier_try eng net ch shuffle tier estimatedValue s =
     (let availableTokens = getAvailableTokensInTreasury ch
      in if availableTokens = []
         then (Inl (Error ''No tokens available in TokenTreasury''), s)
         else
          (let sponsorTokens = fetchSponsors ch;
               sponsorTokensInTreasury =
                 filter (\<lambda>t. address t \<in> set sponsorTokens) availableTokens;
               nonSponsorTokens =
                 filter (\<lambda>t. address t \<notin> set sponsorTokens) availableTokens;
               targetValueInUSD = fdiv (ofBigInt estimatedValue) (Fin 1000000);
               sponsorValue = fmul targetValueInUSD (Fin (1 / 2));
               otherValue = fmul targetValueInUSD (Fin (1 / 2));
               acc1 = sponsorPass eng net sponsorTokensInTreasury sponsorValue
                        (\<lparr>tokens = [], amounts = []\<rparr>, s);
               (sel2, s2) = otherPass eng net shuffle nonSponsorTokens otherValue acc1
           in case fallbackStep availableTokens estimatedValue sel2 of
                Inl e \<Rightarrow> (Inl e, s2)
              | Inr sel3 \<Rightarrow>
                  (let (actualValue, s3) =
                         calculateWalletValue eng net (walletTokensOf sel3) s2
                   in (Inr sel3, s3))))"

text \<open>
  \<^verbatim>\<open>selectTokensForTier\<close> with its handler: whatever the block throws is logged, and
  the configured USDC address is returned with the estimated value as amount. The result
  is a sum because an async function may reject; this one has no path that does.
\<close>

definition selectTokensForTier ::
  "string \<Rightarrow> engine \<Rightarrow> network \<Rightarrow> chain \<Rightarrow> (token list \<Rightarrow> token list) \<Rightarrow> nat \<Rightarrow> int
     \<Rightarrow> oracle_state \<Rightarrow> (js_error + selection) \<times> oracle_state" where
  "selectTokensForTier USDC_ADDRESS eng net ch shuffle tier estimatedValue s =
     (case selectTokensForTier_try eng net ch shuffle tier estimatedValue s of
        (Inl e, s') \<Rightarrow>
          (Inr \<lparr>tokens = [USDC_ADDRESS], amounts = [estimatedValue]\<rparr>, s')
      | (Inr sel, s') \<Rightarrow> (Inr sel, s'))"

section \<open>Auxiliary definitions for the statements\<close>

text \<open>
  What a token gets for a share \<open>valuePerToken\<close> at price \<open>tokenPrice\<close>: nothing at a price
  that is the number zero or when the amount is no finite number, the whole balance when
  the amount exceeds it, the amount otherwise. This is the loop body without the price
  lookup.
\<close>

definition allocation :: "engine \<Rightarrow> jsnum \<Rightarrow> jsval \<Rightarrow> token \<Rightarrow> (string \<times> int) option" where
  "allocation eng valuePerToken tokenPrice tok =
     (if tokenPrice = Num (Fin 0) then None
      else case toBigInt (tokenAmountOf eng valuePerToken tokenPrice (decimals tok)) of
             Inl e \<Rightarrow> None
           | Inr n \<Rightarrow> Some (address tok, if balance tok < n then balance tok else n))"

text \<open>The prices that successive lookups for a list of tokens return, starting in \<open>s\<close>.\<close>

fun pricesSeen :: "network \<Rightarrow> token list \<Rightarrow> oracle_state \<Rightarrow> jsval list" where
  "pricesSeen net [] s = []"
| "pricesSeen net (t # ts) s =
     price (fst (getTokenPrice net (address t) s)) #
     pricesSeen net ts (snd (getTokenPrice net (address t) s))"

definition allocations ::
  "engine \<Rightarrow> jsnum \<Rightarrow> token list \<Rightarrow> jsval list \<Rightarrow> (string \<times> int) list" where
  "allocations eng valuePerToken toks ps =
     List.map_filter (\<lambda>(t, p). allocation eng valuePerToken p t) (zip toks ps)"

text \<open>
  The tokens whose prices a selection looks up, in the order of its lookups: the sponsor
  tokens that the treasury holds, then the other tokens that are drawn, when the other
  pass runs.
\<close>

definition lookedUp :: "chain \<Rightarrow> (token list \<Rightarrow> token list) \<Rightarrow> int \<Rightarrow> token list" where
  "lookedUp ch shuffle estimatedValue =
     (let availableTokens = getAvailableTokensInTreasury ch;
          sponsorTokens = fetchSponsors ch;
          sponsorTokensInTreasury =
            filter (\<lambda>t. address t \<in> set sponsorTokens) availableTokens;
          nonSponsorTokens =
            filter (\<lambda>t. address t \<notin> set sponsorTokens) availableTokens;
          otherValue = fmul (fdiv (ofBigInt estimatedValue) (Fin 1000000)) (Fin (1 / 2));
          numOtherTokens = min 3 (length nonSponsorTokens)
      in sponsorTokensInTreasury @
         (if 0 < numOtherTokens \<and> fless (Fin 0) otherValue
          then take numOtherTokens (shuffle nonSponsorTokens) else []))"

text \<open>The addresses of a batch that the cache does not serve.\<close>

definition uncachedOf :: "oracle_state \<Rightarrow> string list \<Rightarrow> string list" where
  "uncachedOf s as = filter (\<lambda>x. getCachedPrice x s = None) as"

text \<open>
  The value line of a token, given the results of the price lookup: the amount is the
  token's amount over the power of ten of its decimals; with a price above zero the value
  in dollars is the amount times the price, both in doubles, and the line carries the
  price and its source; otherwise price and value are zero and the source is \<open>none\<close>.
\<close>

definition lineOf :: "engine \<Rightarrow> results \<Rightarrow> wallet_token \<Rightarrow> token_value" where
  "lineOf eng prices t =
     (let amount = fdiv (numberOfAmount (wt_amount t)) (mathPow10 eng (wt_decimals t));
          unpricedLine = \<lparr>tv_address = wt_address t, tv_amount = amount,
                          tv_price = Num (Fin 0), tv_usd = Fin 0, tv_source = ''none''\<rparr>
      in case prices (toLowerCase (wt_address t)) of
           None \<Rightarrow> unpricedLine
         | Some r \<Rightarrow>
             if fless (Fin 0) (toNumber (price r))
             then \<lparr>tv_address = wt_address t, tv_amount = amount, tv_price = price r,
                   tv_usd = fmul amount (toNumber (price r)), tv_source = source r\<rparr>
             else unpricedLine)"

text \<open>
  How the cache of a state \<open>st\<close> stands to the results \<open>res\<close> of a batch lookup that began in
  \<open>s0\<close>: the cache differs from that of \<open>s0\<close> only at keys whose result was fetched (not
  served from the cache, and with a source), and every fetched result has a price other
  than the number zero and is in the cache, with its source.
\<close>

definition cacheFollows :: "oracle_state \<Rightarrow> results \<Rightarrow> oracle_state \<Rightarrow> bool" where
  "cacheFollows s0 res st =
     (\<forall>k. (priceCache st k \<noteq> priceCache s0 k \<longrightarrow>
             (\<exists>r. res k = Some r \<and> \<not> cached r \<and> source r \<noteq> ''none'')) \<and>
          (\<forall>r. res k = Some r \<and> \<not> cached r \<and> source r \<noteq> ''none'' \<longrightarrow>
             price r \<noteq> Num (Fin 0) \<and>
             (\<exists>c. priceCache st k = Some c \<and> entry_price c = price r \<and>
                  entry_source c = source r)))"

text \<open>The sponsor tokens that the treasury holds, as step 3 of the selection filters them.\<close>

definition sponsorTokensInTreasuryOf :: "chain \<Rightarrow> token list" where
  "sponsorTokensInTreasuryOf ch =
     filter (\<lambda>t. address t \<in> set (fetchSponsors ch)) (getAvailableTokensInTreasury ch)"

text \<open>
  A selection whose lines each name a token of the list \<open>av\<close> and an amount within that
  token's balance.
\<close>

definition linesWithin :: "token list \<Rightarrow> selection \<Rightarrow> bool" where
  "linesWithin av sel =
     (\<exists>ls. tokens sel = map fst ls \<and> amounts sel = map snd ls \<and>
        (\<forall>l\<in>set ls. \<exists>t\<in>set av. fst l = address t \<and> snd l \<le> balance t))"

section \<open>Concrete inputs\<close>

definition USDC :: string where
  "USDC = ''0x833589fCD6eDb6E08f4c7C32D4f71b54bdA02913''"

definition DEGEN :: string where
  "DEGEN = ''0x4ed4E862860beD51a9570b96d89aF5E1B0Efefed''"

definition DAI :: string where
  "DAI = ''0x50c5725949A6F0c72E6C4a641F24049A917DB0Cb''"

text \<open>
  An engine whose powers of ten are correctly rounded. Up to \<open>10 ^ 22\<close> a power of ten is
  itself a double, and the engines return it; the inputs below have 0, 6 or 18 decimals.
\<close>

definition roundedEngine :: engine where
  "roundedEngine = \<lparr>pow10 = (\<lambda>d. toDouble (10 ^ d))\<rparr>"

text \<open>An idle oracle with an empty cache, at some time of day.\<close>

definition coldOracle :: oracle_state where
  "coldOracle = \<lparr>priceCache = Map.empty, lastCoinGeckoCall = 0, lastMoralisCall = 0,
                  clock = 1000000, requests = [], snapshot = []\<rparr>"

text \<open>CoinGecko prices every address it is asked for at the number \<open>p\<close>; Moralis is down.\<close>

definition flatNet :: "jsnum \<Rightarrow> network" where
  "flatNet p =
     \<lparr>coingecko = (\<lambda>t as. \<lparr>elapsed = 100, body = Some (map (\<lambda>a. (a, Num p)) as)\<rparr>),
      moralis = (\<lambda>t a. \<lparr>elapsed = 100, body = None\<rparr>)\<rparr>"

text \<open>Both sources are down.\<close>

definition deadNet :: network where
  "deadNet = \<lparr>coingecko = (\<lambda>t as. \<lparr>elapsed = 100, body = None\<rparr>),
              moralis = (\<lambda>t a. \<lparr>elapsed = 100, body = None\<rparr>)\<rparr>"

text \<open>CoinGecko prices USDC only, at one dollar; Moralis is down.\<close>

definition usdcOnlyNet :: network where
  "usdcOnlyNet =
     \<lparr>coingecko = (\<lambda>t as. \<lparr>elapsed = 100,
                     body = Some (map (\<lambda>a. (a, if a = toLowerCase USDC then Num (Fin 1)
                                                else Undefined)) as)\<rparr>),
      moralis = (\<lambda>t a. \<lparr>elapsed = 100, body = None\<rparr>)\<rparr>"

text \<open>A treasury that holds nothing.\<close>

definition emptyChain :: chain where
  "emptyChain = \<lparr>getTokenBalance = (\<lambda>a. Some 0), decimalsOf = (\<lambda>a. Some 6),
                 symbolOf = (\<lambda>a. Some ''TOK''), getActiveSponsors = Some []\<rparr>"

text \<open>Scenario A: the treasury holds 10,000 USDC (6 decimals) and nothing else; no sponsors.\<close>

definition chainA :: chain where
  "chainA = \<lparr>getTokenBalance = (\<lambda>a. if a = USDC then Some 10000000000 else Some 0),
             decimalsOf = (\<lambda>a. Some 6), symbolOf = (\<lambda>a. Some ''USDC''),
             getActiveSponsors = Some []\<rparr>"

text \<open>Two sponsors in the treasury, USDC and DEGEN, and no other token.\<close>

definition twoSponsorChain :: chain where
  "twoSponsorChain =
     \<lparr>getTokenBalance = (\<lambda>a. if a = USDC then Some 10000000000
                              else if a = DEGEN then Some 1000000000000000000000000000
                              else Some 0),
      decimalsOf = (\<lambda>a. if a = USDC then Some 6 else Some 18),
      symbolOf = (\<lambda>a. Some ''TOK''),
      getActiveSponsors = Some [USDC, DEGEN]\<rparr>"

text \<open>The treasury holds a million DAI (18 decimals) and nothing else; no sponsors.\<close>

definition daiChain :: chain where
  "daiChain = \<lparr>getTokenBalance = (\<lambda>a. if a = DAI then Some 1000000000000000000000000 else Some 0),
               decimalsOf = (\<lambda>a. Some 18), symbolOf = (\<lambda>a. Some ''DAI''),
               getActiveSponsors = Some []\<rparr>"

text \<open>An oracle whose cache holds a USDC price of one dollar, fetched 100 seconds ago.\<close>

definition staleOracle :: oracle_state where
  "staleOracle =
     \<lparr>priceCache = [toLowerCase USDC \<mapsto>
         \<lparr>entry_price = Num (Fin 1), entry_source = ''coingecko'', timestamp = 900000\<rparr>],
      lastCoinGeckoCall = 0, lastMoralisCall = 0, clock = 1000000, requests = [], snapshot = []\<rparr>"

text \<open>CoinGecko prices every address at minus one dollar; Moralis prices it at five.\<close>

definition negativeNet :: network where
  "negativeNet =
     \<lparr>coingecko = (\<lambda>t as. \<lparr>elapsed = 100, body = Some (map (\<lambda>a. (a, Num (Fin (- 1)))) as)\<rparr>),
      moralis = (\<lambda>t a. \<lparr>elapsed = 100,
                         body = Some \<lparr>usdPrice = Num (Fin 5), usdPriceFormatted = Str ''5''\<rparr>\<rparr>)\<rparr>"

text \<open>CoinGecko is down; Moralis answers with a price of zero, as a number and as a string.\<close>

definition zeroStringNet :: network where
  "zeroStringNet =
     \<lparr>coingecko = (\<lambda>t as. \<lparr>elapsed = 100, body = None\<rparr>),
      moralis = (\<lambda>t a. \<lparr>elapsed = 100,
                         body = Some \<lparr>usdPrice = Num (Fin 0), usdPriceFormatted = Str ''0''\<rparr>\<rparr>)\<rparr>"

section \<open>Lemmas\<close>

subsection \<open>Lookups and the cache\<close>

lemma getTokenPrice_hit:
  "getCachedPrice a s = Some c \<Longrightarrow> getTokenPrice net a s = (c, s)"
  by (simp add: getTokenPrice_def)

lemma fetchFromCoinGecko_requests:
  "requests (snd (fetchFromCoinGecko net as s)) =
     requests s @ [CoinGeckoRequest (map toLowerCase as)]"
  by (simp add: fetchFromCoinGecko_def Let_def split: option.splits)

lemma fetchFromMoralis_requests:
  "requests (snd (fetchFromMoralis net a s)) = requests s @ [MoralisRequest a]"
  by (simp add: fetchFromMoralis_def Let_def split: option.splits)

lemma setCachePrice_requests [simp]: "requests (setCachePrice a p src s) = requests s"
  by (simp add: setCachePrice_def)

lemma getTokenPrice_miss_requests:
  assumes "getCachedPrice a s = None"
  shows "\<exists>rest. requests (snd (getTokenPrice net a s)) =
           requests s @ CoinGeckoRequest [toLowerCase a] # rest"
  using assms fetchFromCoinGecko_requests[of net "[a]" s]
    fetchFromMoralis_requests[of net a "snd (fetchFromCoinGecko net [a] s)"]
  by (auto simp: getTokenPrice_def Let_def split: option.splits prod.splits)

lemma getTokenPrice_miss_cached:
  assumes "getCachedPrice a s = None"
  shows "cached (fst (getTokenPrice net a s)) = False"
  using assms by (auto simp: getTokenPrice_def Let_def split: option.splits prod.splits)

lemma getTokenPrice_fetched_entry:
  assumes "getTokenPrice net a s0 = (r, s1)" "\<not> cached r" "source r \<noteq> ''none''"
  shows "priceCache s1 (toLowerCase a) =
           Some \<lparr>entry_price = price r, entry_source = source r, timestamp = clock s1\<rparr> \<and>
         error r = None"
  using assms
  by (auto simp: getTokenPrice_def getCachedPrice_def setCachePrice_def Let_def
           split: option.splits prod.splits if_splits)

lemma pricedBy_truthy: "pricedBy r k = Some p \<Longrightarrow> truthy p"
  by (cases r) (auto split: option.splits if_splits)

lemma fetchFromCoinGecko_cache [simp]:
  "priceCache (snd (fetchFromCoinGecko net as s)) = priceCache s"
  by (simp add: fetchFromCoinGecko_def Let_def split: option.splits)

lemma fetchFromMoralis_cache [simp]:
  "priceCache (snd (fetchFromMoralis net a s)) = priceCache s"
  by (simp add: fetchFromMoralis_def Let_def split: option.splits)

subsection \<open>Selection from an empty treasury\<close>

lemma selectTokensForTier_try_empty:
  assumes "getAvailableTokensInTreasury ch = []"
  shows "selectTokensForTier_try eng net ch shuffle tier estimatedValue s =
           (Inl (Error ''No tokens available in TokenTreasury''), s)"
  using assms by (simp add: selectTokensForTier_try_def)

subsection \<open>The batch lookup\<close>

lemma fold_cacheStep_uncached:
  "snd (fold (cacheStep s) as (res, unc)) = unc @ uncachedOf s as"
  by (induction as arbitrary: res unc)
     (auto simp: cacheStep_def uncachedOf_def split: option.splits)

lemma fold_coinGeckoStep_requests:
  "requests (snd (fold coinGeckoStep prices acc)) = requests (snd acc)"
  by (induction prices arbitrary: acc) (auto simp: coinGeckoStep_def split: prod.splits)

lemma moralisStep_requests_exact:
  "requests (snd (moralisStep net x (res, s))) =
     requests s @ (if unpriced res (toLowerCase x) then [MoralisRequest x] else [])"
  using fetchFromMoralis_requests[of net x s]
  by (auto simp: moralisStep_def split: prod.splits option.splits)

lemma fold_moralisStep_requests_subseq:
  "\<exists>xs. subseq xs as \<and>
     requests (snd (fold (moralisStep net) as acc)) = requests (snd acc) @ map MoralisRequest xs"
proof (induction as arbitrary: acc)
  case Nil
  then show ?case by simp
next
  case (Cons x as)
  obtain res s where acc: "acc = (res, s)" by (cases acc)
  obtain xs where xs: "subseq xs as"
    "requests (snd (fold (moralisStep net) as (moralisStep net x acc))) =
       requests (snd (moralisStep net x acc)) @ map MoralisRequest xs"
    using Cons.IH by blast
  show ?case
  proof (cases "unpriced res (toLowerCase x)")
    case True
    then have "requests (snd (fold (moralisStep net) (x # as) acc)) =
                 requests (snd acc) @ map MoralisRequest (x # xs)"
      using xs(2) moralisStep_requests_exact[of net x res s] acc by simp
    moreover have "subseq (x # xs) (x # as)" using xs(1) by simp
    ultimately show ?thesis by blast
  next
    case False
    then have "requests (snd (fold (moralisStep net) (x # as) acc)) =
                 requests (snd acc) @ map MoralisRequest xs"
      using xs(2) moralisStep_requests_exact[of net x res s] acc by simp
    moreover have "subseq xs (x # as)" using xs(1) by (rule list_emb_Cons)
    ultimately show ?thesis by blast
  qed
qed

lemma getTokenPrices_requests:
  assumes "uncachedOf s as \<noteq> []"
  shows "\<exists>xs. subseq xs (uncachedOf s as) \<and>
           requests (snd (getTokenPrices net as s)) =
             requests s @ CoinGeckoRequest (map toLowerCase (uncachedOf s as)) #
               map MoralisRequest xs"
proof -
  obtain res0 unc where c: "fold (cacheStep s) as (Map.empty, []) = (res0, unc)" by fastforce
  have unc: "unc = uncachedOf s as"
    using fold_cacheStep_uncached[of s as Map.empty "[]"] c by simp
  obtain cg s1 where cg: "fetchFromCoinGecko net unc s = (cg, s1)" by fastforce
  have q1: "requests s1 = requests s @ [CoinGeckoRequest (map toLowerCase unc)]"
    using fetchFromCoinGecko_requests[of net unc s] cg by simp
  obtain res1 s2 where acc1:
    "(case cg of FetchOk prices \<Rightarrow> fold coinGeckoStep prices (res0, s1)
      | FetchFailed \<Rightarrow> (res0, s1)) = (res1, s2)" by fastforce
  have q2: "requests s2 = requests s1"
  proof (cases cg)
    case FetchFailed
    then show ?thesis using acc1 by simp
  next
    case (FetchOk prices)
    then show ?thesis
      using acc1 fold_coinGeckoStep_requests[of prices "(res0, s1)"] by simp
  qed
  have final: "getTokenPrices net as s = fold (moralisStep net) unc (res1, s2)"
    using c cg acc1 assms unc by (simp add: getTokenPrices_def)
  obtain xs where "subseq xs unc"
    "requests (snd (fold (moralisStep net) unc (res1, s2))) = requests s2 @ map MoralisRequest xs"
    using fold_moralisStep_requests_subseq[of unc net "(res1, s2)"] by auto
  then show ?thesis using final q1 q2 unc by auto
qed

subsection \<open>The snapshot\<close>

lemma fetchFromCoinGecko_snapshot [simp]:
  "snapshot (snd (fetchFromCoinGecko net as s)) = snapshot s"
  by (simp add: fetchFromCoinGecko_def Let_def split: option.splits)

lemma fetchFromMoralis_snapshot [simp]:
  "snapshot (snd (fetchFromMoralis net a s)) = snapshot s"
  by (simp add: fetchFromMoralis_def Let_def split: option.splits)

lemma setCachePrice_snapshot [simp]: "snapshot (setCachePrice a p src s) = snapshot s"
  by (simp add: setCachePrice_def)

lemma fold_coinGeckoStep_snapshot:
  "snapshot (snd (fold coinGeckoStep prices acc)) = snapshot (snd acc)"
  by (induction prices arbitrary: acc) (auto simp: coinGeckoStep_def split: prod.splits)

lemma fetchFromMoralis_snapshot_eq:
  "fetchFromMoralis net a s = (r, s') \<Longrightarrow> snapshot s' = snapshot s"
  using fetchFromMoralis_snapshot[of net a s] by simp

lemma moralisStep_snapshot:
  "snapshot (snd (moralisStep net a acc)) = snapshot (snd acc)"
  by (cases acc)
     (auto simp: moralisStep_def split: prod.splits option.splits
           dest: fetchFromMoralis_snapshot_eq)

lemma fold_moralisStep_snapshot:
  "snapshot (snd (fold (moralisStep net) as acc)) = snapshot (snd acc)"
  by (induction as arbitrary: acc) (auto simp: moralisStep_snapshot)

lemma getTokenPrices_snapshot:
  "snapshot (snd (getTokenPrices net as s)) = snapshot s"
proof -
  obtain res0 unc where c: "fold (cacheStep s) as (Map.empty, []) = (res0, unc)" by fastforce
  obtain cg s1 where cg: "fetchFromCoinGecko net unc s = (cg, s1)" by fastforce
  have s1: "snapshot s1 = snapshot s" using fetchFromCoinGecko_snapshot[of net unc s] cg by simp
  obtain res1 s2 where acc1:
    "(case cg of FetchOk prices \<Rightarrow> fold coinGeckoStep prices (res0, s1)
      | FetchFailed \<Rightarrow> (res0, s1)) = (res1, s2)" by fastforce
  have s2: "snapshot s2 = snapshot s1"
  proof (cases cg)
    case FetchFailed
    then show ?thesis using acc1 by simp
  next
    case (FetchOk prices)
    then show ?thesis using acc1 fold_coinGeckoStep_snapshot[of prices "(res0, s1)"] by simp
  qed
  show ?thesis
    using c cg acc1 s1 s2 fold_moralisStep_snapshot[of net unc "(res1, s2)"]
    by (simp add: getTokenPrices_def)
qed

lemma getTokenPrices_all_cached:
  assumes "\<forall>a\<in>set as. getCachedPrice a s \<noteq> None"
  shows "snd (getTokenPrices net as s) = s"
proof -
  obtain res0 unc where c: "fold (cacheStep s) as (Map.empty, []) = (res0, unc)" by fastforce
  have "unc = uncachedOf s as"
    using fold_cacheStep_uncached[of s as Map.empty "[]"] c by simp
  then have "unc = []" using assms by (simp add: uncachedOf_def)
  then show ?thesis using c by (simp add: getTokenPrices_def)
qed

subsection \<open>The two passes\<close>

lemma processToken_allocation:
  "processToken eng net v t (sel, s) =
     (case allocation eng v (price (fst (getTokenPrice net (address t) s))) t of
        None \<Rightarrow> (sel, snd (getTokenPrice net (address t) s))
      | Some l \<Rightarrow> (\<lparr>tokens = tokens sel @ [fst l], amounts = amounts sel @ [snd l]\<rparr>,
                   snd (getTokenPrice net (address t) s)))"
  by (auto simp: processToken_def allocation_def Let_def split: prod.splits sum.splits)

lemma allocations_Nil [simp]: "allocations eng v [] ps = []"
  by (simp add: allocations_def map_filter_simps)

lemma allocations_Cons [simp]:
  "allocations eng v (t # ts) (p # ps) =
     (case allocation eng v p t of None \<Rightarrow> allocations eng v ts ps
      | Some l \<Rightarrow> l # allocations eng v ts ps)"
  by (cases "allocation eng v p t") (simp_all add: allocations_def map_filter_simps)

lemma fold_processToken:
  "fst (fold (processToken eng net v) toks (sel, s)) =
     \<lparr>tokens = tokens sel @ map fst (allocations eng v toks (pricesSeen net toks s)),
      amounts = amounts sel @ map snd (allocations eng v toks (pricesSeen net toks s))\<rparr>"
proof (induction toks arbitrary: sel s)
  case Nil
  then show ?case by simp
next
  case (Cons t ts)
  show ?case
    by (cases "allocation eng v (price (fst (getTokenPrice net (address t) s))) t")
       (simp_all add: processToken_allocation Cons.IH)
qed

lemma selectTokensForTier_Inr:
  "fst (selectTokensForTier_try eng net ch shuffle tier ev s) = Inr sel \<Longrightarrow>
   fst (selectTokensForTier usdc eng net ch shuffle tier ev s) = Inr sel"
  by (cases "selectTokensForTier_try eng net ch shuffle tier ev s")
     (auto simp: selectTokensForTier_def)

lemma fallbackStep_selected: "tokens sel \<noteq> [] \<Longrightarrow> fallbackStep av ev sel = Inr sel"
  by (simp add: fallbackStep_def)

lemma fallbackStep_nonempty:
  assumes "av \<noteq> []"
  shows "\<exists>selF. fallbackStep av ev sel = Inr selF \<and>
           set (tokens selF) \<subseteq> set (tokens sel) \<union> address ` set av"
  using assms by (cases av) (auto simp: fallbackStep_def Let_def)

subsection \<open>Rounding keeps the sign\<close>

lemma pow2_pos: "0 < pow2 k"
  by (simp add: pow2_def)

lemma roundHalfEven_nonneg: "0 \<le> z \<Longrightarrow> 0 \<le> roundHalfEven z"
  by (auto simp: roundHalfEven_def Let_def)

lemma toDouble_nonneg:
  assumes "0 \<le> y" "toDouble y = Fin x"
  shows "0 \<le> x"
proof (cases "y = 0")
  case True
  then show ?thesis using assms(2) by (simp add: toDouble_def)
next
  case False
  then have pos: "0 < y" using assms(1) by simp
  define e where "e = max (ilog2 \<bar>y\<bar>) (- 1022)"
  have "0 \<le> roundHalfEven (\<bar>y\<bar> / pow2 (e - 52))"
    using pow2_pos[of "e - 52"] by (intro roundHalfEven_nonneg) simp
  then have "0 \<le> sgn y * (of_int (roundHalfEven (\<bar>y\<bar> / pow2 (e - 52))) * pow2 (e - 52))"
    using pos pow2_pos[of "e - 52"] by simp
  then show ?thesis
    using assms(2) False
    by (auto simp: toDouble_def Let_def e_def split: if_splits)
qed

lemma fmul_Fin:
  assumes "fmul a b = Fin x"
  obtains q w where "a = Fin q" "b = Fin w" "toDouble (q * w) = Fin x"
  using assms by (cases a; cases b) (auto split: if_splits)

lemma fdiv_pos_nonneg:
  assumes "0 \<le> v" "0 < p" "fdiv (Fin v) (Fin p) = Fin q"
  shows "0 \<le> q"
  using assms toDouble_nonneg[of "v / p" q] by simp

subsection \<open>Lines and balances\<close>

lemma availableStep_member:
  "t \<in> set (availableStep ch a acc) \<Longrightarrow>
   t \<in> set acc \<or> (getTokenBalance ch (address t) = Some (balance t) \<and> 0 < balance t)"
  by (auto simp: availableStep_def split: option.splits if_splits)

lemma available_token_balance:
  "t \<in> set (fold (availableStep ch) xs acc) \<Longrightarrow>
   t \<in> set acc \<or> (getTokenBalance ch (address t) = Some (balance t) \<and> 0 < balance t)"
proof (induction xs arbitrary: acc)
  case Nil
  then show ?case by simp
next
  case (Cons a xs)
  then have "t \<in> set (availableStep ch a acc) \<or>
             (getTokenBalance ch (address t) = Some (balance t) \<and> 0 < balance t)"
    by simp
  then show ?case using availableStep_member[of t ch a acc] by blast
qed

lemma allocation_within: "allocation eng v p t = Some l \<Longrightarrow> fst l = address t \<and> snd l \<le> balance t"
  by (auto simp: allocation_def split: if_splits sum.splits)

lemma allocations_within:
  "\<forall>l\<in>set (allocations eng v toks ps). \<exists>t\<in>set toks. fst l = address t \<and> snd l \<le> balance t"
proof (induction toks arbitrary: ps)
  case Nil
  then show ?case by simp
next
  case (Cons t ts)
  show ?case
  proof (cases ps)
    case Nil
    then show ?thesis by (simp add: allocations_def map_filter_simps)
  next
    case (Cons p ps')
    then show ?thesis
      using Cons.IH[of ps'] allocation_within[of eng v p t]
      by (cases "allocation eng v p t") auto
  qed
qed

lemma fold_processToken_within:
  assumes "set toks \<subseteq> set av" "linesWithin av sel"
  shows "linesWithin av (fst (fold (processToken eng net v) toks (sel, s)))"
proof -
  obtain ls where ls: "tokens sel = map fst ls" "amounts sel = map snd ls"
    "\<forall>l\<in>set ls. \<exists>t\<in>set av. fst l = address t \<and> snd l \<le> balance t"
    using assms(2) unfolding linesWithin_def by blast
  define ms where "ms = allocations eng v toks (pricesSeen net toks s)"
  have "\<forall>l\<in>set ms. \<exists>t\<in>set av. fst l = address t \<and> snd l \<le> balance t"
    using allocations_within[of eng v toks "pricesSeen net toks s"] assms(1) unfolding ms_def by blast
  then have "\<forall>l\<in>set (ls @ ms). \<exists>t\<in>set av. fst l = address t \<and> snd l \<le> balance t"
    using ls(3) by auto
  moreover have "tokens (fst (fold (processToken eng net v) toks (sel, s))) = map fst (ls @ ms)"
    "amounts (fst (fold (processToken eng net v) toks (sel, s))) = map snd (ls @ ms)"
    using ls(1,2) by (simp_all add: fold_processToken ms_def)
  ultimately show ?thesis unfolding linesWithin_def by blast
qed

lemma sponsorPass_within:
  assumes "set sp \<subseteq> set av" "linesWithin av sel"
  shows "linesWithin av (fst (sponsorPass eng net sp sv (sel, s)))"
  using assms fold_processToken_within[of sp av sel eng net _ s]
  by (simp add: sponsorPass_def Let_def)

lemma otherPass_within:
  assumes "set ns \<subseteq> set av" "set (shuffle ns) \<subseteq> set ns" "linesWithin av sel"
  shows "linesWithin av (fst (otherPass eng net shuffle ns ov (sel, s)))"
proof -
  have "set (take (min 3 (length ns)) (shuffle ns)) \<subseteq> set av"
    using assms(1,2) set_take_subset[of _ "shuffle ns"] by blast
  then show ?thesis
    using assms(3) fold_processToken_within[of "take (min 3 (length ns)) (shuffle ns)" av sel eng net _ s]
    by (simp add: otherPass_def Let_def)
qed

lemma fallbackStep_within:
  assumes "linesWithin av sel" "fallbackStep av ev sel = Inr sel'"
  shows "linesWithin av sel'"
proof (cases "tokens sel = []")
  case False
  then show ?thesis using assms by (simp add: fallbackStep_def)
next
  case True
  then obtain fb rest where av: "av = fb # rest"
    using assms(2) by (cases av) (auto simp: fallbackStep_def)
  define n where "n = (if ev < balance fb then ev else balance fb)"
  have "sel' = \<lparr>tokens = map fst [(address fb, n)], amounts = map snd [(address fb, n)]\<rparr>"
    using True assms(2) av by (simp add: fallbackStep_def Let_def n_def)
  moreover have "\<forall>l\<in>set [(address fb, n)]. \<exists>t\<in>set av. fst l = address t \<and> snd l \<le> balance t"
    using av by (simp add: n_def)
  ultimately show ?thesis unfolding linesWithin_def by (metis selection.select_convs(1,2))
qed

text \<open>
  Whenever the treasury is not empty, every line that selection returns names an available
  token and an amount within the balance that the treasury reported for it.
\<close>

lemma lines_within_balance_when_treasury_nonempty:
  assumes "getAvailableTokensInTreasury ch \<noteq> []" and "\<forall>xs. set (shuffle xs) \<subseteq> set xs"
      and "fst (selectTokensForTier usdc eng net ch shuffle tier ev s) = Inr sel"
  shows "linesWithin (getAvailableTokensInTreasury ch) sel"
proof -
  define av where "av = getAvailableTokensInTreasury ch"
  define sp where "sp = filter (\<lambda>t. address t \<in> set (fetchSponsors ch)) av"
  define ns where "ns = filter (\<lambda>t. address t \<notin> set (fetchSponsors ch)) av"
  define sv where "sv = fmul (fdiv (ofBigInt ev) (Fin 1000000)) (Fin (1 / 2))"
  define sel0 where "sel0 = \<lparr>tokens = [], amounts = []\<rparr>"
  have w0: "linesWithin av sel0"
    unfolding linesWithin_def sel0_def by (rule exI[of _ "[]"]) simp
  obtain sel1 s1 where p1: "sponsorPass eng net sp sv (sel0, s) = (sel1, s1)" by fastforce
  have w1: "linesWithin av sel1"
    using sponsorPass_within[of sp av sel0 eng net sv s] w0 p1 by (simp add: sp_def)
  obtain sel2 s2 where p2: "otherPass eng net shuffle ns sv (sel1, s1) = (sel2, s2)" by fastforce
  have pn: "set (shuffle ns) \<subseteq> set ns" using assms(2) by blast
  have w2: "linesWithin av sel2"
    using otherPass_within[where ns=ns and av=av and shuffle=shuffle and sel=sel1 and net=net
        and eng=eng
        and ov=sv and s=s1, OF _ pn w1] p2
    by (simp add: ns_def)
  have ne: "av \<noteq> []" using assms(1) by (simp add: av_def)
  obtain sel3 where f: "fallbackStep av ev sel2 = Inr sel3"
    using fallbackStep_nonempty[OF ne, of ev sel2] by blast
  have w3: "linesWithin av sel3" using w2 f by (rule fallbackStep_within)
  obtain w3v s3 where v: "calculateWalletValue eng net (walletTokensOf sel3) s2 = (w3v, s3)"
    by fastforce
  have "selectTokensForTier_try eng net ch shuffle tier ev s = (Inr sel3, s3)"
    using ne p1 p2 f v
    unfolding av_def sp_def ns_def sv_def sel0_def
    by (simp add: selectTokensForTier_try_def Let_def split: prod.splits)
  then have "fst (selectTokensForTier usdc eng net ch shuffle tier ev s) = Inr sel3"
    by (simp add: selectTokensForTier_def)
  then show ?thesis using w3 assms(3) by (simp add: av_def)
qed

subsection \<open>The value of a wallet\<close>

lemma fold_valueStep_lines:
  "tokenValues (fold (valueStep eng prices) toks acc) =
     tokenValues acc @ map (lineOf eng prices) toks"
  by (induction toks arbitrary: acc)
     (auto simp: valueStep_def lineOf_def Let_def split: option.splits)

lemma fold_valueStep_total:
  assumes "totalValue acc =
             foldl fadd (Fin 0)
               (map tv_usd (filter (\<lambda>l. fless (Fin 0) (toNumber (tv_price l))) (tokenValues acc)))"
  shows "totalValue (fold (valueStep eng prices) toks acc) =
           foldl fadd (Fin 0)
             (map tv_usd (filter (\<lambda>l. fless (Fin 0) (toNumber (tv_price l)))
                (tokenValues (fold (valueStep eng prices) toks acc))))"
  using assms
proof (induction toks arbitrary: acc)
  case Nil
  then show ?case by simp
next
  case (Cons t toks)
  have "totalValue (valueStep eng prices t acc) =
          foldl fadd (Fin 0)
            (map tv_usd (filter (\<lambda>l. fless (Fin 0) (toNumber (tv_price l)))
               (tokenValues (valueStep eng prices t acc))))"
    using Cons.prems
    by (auto simp: valueStep_def Let_def split: option.splits)
  then show ?case using Cons.IH by simp
qed

subsection \<open>Where a batch lookup writes\<close>

lemma update_set_subset: "set (AList.update k v al) \<subseteq> insert (k, v) (set al)"
  by (induction al) auto

lemma lowerChar_idem [simp]: "lowerChar (lowerChar c) = lowerChar c"
  by (auto simp: lowerChar_def Let_def)

lemma toLowerCase_idem [simp]: "toLowerCase (toLowerCase a) = toLowerCase a"
  by (simp add: toLowerCase_def)

lemma fold_update_lower_keys:
  assumes "\<forall>(k, p)\<in>set acc. toLowerCase k = k"
  shows "\<forall>(k, p)\<in>set (fold (\<lambda>(address, usd).
                                AList.update (toLowerCase address) (orElse usd (Num (Fin 0))))
                          entries acc). toLowerCase k = k"
  using assms
proof (induction entries arbitrary: acc)
  case Nil
  then show ?case by simp
next
  case (Cons e es)
  obtain a u where e: "e = (a, u)" by (cases e)
  have "\<forall>(k, p)\<in>set (AList.update (toLowerCase a) (orElse u (Num (Fin 0))) acc). toLowerCase k = k"
    using Cons.prems update_set_subset[of "toLowerCase a" "orElse u (Num (Fin 0))" acc] by auto
  then show ?case using Cons.IH e by simp
qed

lemma fetchFromCoinGecko_lower_keys:
  assumes "fetchFromCoinGecko net as s = (FetchOk prices, s1)"
  shows "\<forall>(k, p)\<in>set prices. toLowerCase k = k"
  using assms fold_update_lower_keys[of "[]"]
  by (auto simp: fetchFromCoinGecko_def Let_def split: option.splits)

lemma fless_pos_nonzero: "fless (Fin 0) (toNumber p) \<Longrightarrow> p \<noteq> Num (Fin 0)"
  by auto

lemma truthy_nonzero: "truthy p \<Longrightarrow> p \<noteq> Num (Fin 0)"
  by auto

lemma fold_cacheStep_cached:
  assumes "fst (fold (cacheStep s) as (res, unc)) k = Some r"
  shows "res k = Some r \<or> cached r"
  using assms
proof (induction as arbitrary: res unc)
  case Nil
  then show ?case by simp
next
  case (Cons a as)
  show ?case
  proof (cases "getCachedPrice a s")
    case None
    then show ?thesis using Cons by (simp add: cacheStep_def)
  next
    case (Some c)
    then have c: "cached c" by (auto simp: getCachedPrice_def split: option.splits if_splits)
    have step: "cacheStep s a (res, unc) = (res(toLowerCase a \<mapsto> c), unc)"
      using Some by (simp add: cacheStep_def)
    have "fst (fold (cacheStep s) as (res(toLowerCase a \<mapsto> c), unc)) k = Some r"
      using Cons.prems step by simp
    then have "(res(toLowerCase a \<mapsto> c)) k = Some r \<or> cached r"
      by (rule Cons.IH)
    then show ?thesis using c by (cases "k = toLowerCase a") auto
  qed
qed

lemma coinGeckoStep_follows:
  assumes "toLowerCase (fst e) = fst e" "cacheFollows s0 res st"
  shows "cacheFollows s0 (fst (coinGeckoStep e (res, st))) (snd (coinGeckoStep e (res, st)))"
proof -
  obtain k p where e: "e = (k, p)" by (cases e)
  show ?thesis
  proof (cases "fless (Fin 0) (toNumber p)")
    case False
    then show ?thesis using assms(2) e by (simp add: coinGeckoStep_def)
  next
    case True
    then have nz: "p \<noteq> Num (Fin 0)" by (rule fless_pos_nonzero)
    show ?thesis
      using assms e True nz
      unfolding cacheFollows_def coinGeckoStep_def setCachePrice_def
      by (auto simp: fun_upd_def)
  qed
qed

lemma fold_coinGeckoStep_follows:
  assumes "\<forall>(k, p)\<in>set es. toLowerCase k = k" "cacheFollows s0 (fst acc) (snd acc)"
  shows "cacheFollows s0 (fst (fold coinGeckoStep es acc)) (snd (fold coinGeckoStep es acc))"
  using assms
proof (induction es arbitrary: acc)
  case Nil
  then show ?case by simp
next
  case (Cons e es)
  have "toLowerCase (fst e) = fst e" using Cons.prems(1) by auto
  then have "cacheFollows s0 (fst (coinGeckoStep e acc)) (snd (coinGeckoStep e acc))"
    using coinGeckoStep_follows[of e s0 "fst acc" "snd acc"] Cons.prems(2) by simp
  then show ?case using Cons.IH[of "coinGeckoStep e acc"] Cons.prems(1) by simp
qed

lemma moralisStep_follows:
  assumes "cacheFollows s0 res st"
  shows "cacheFollows s0 (fst (moralisStep net x (res, st))) (snd (moralisStep net x (res, st)))"
proof (cases "unpriced res (toLowerCase x)")
  case False
  then show ?thesis using assms by (simp add: moralisStep_def)
next
  case True
  obtain mo s1 where mo: "fetchFromMoralis net x st = (mo, s1)" by fastforce
  have c1: "priceCache s1 = priceCache st" using fetchFromMoralis_cache[of net x st] mo by simp
  have same: "priceCache st (toLowerCase x) = priceCache s0 (toLowerCase x)"
  proof (rule ccontr)
    assume "priceCache st (toLowerCase x) \<noteq> priceCache s0 (toLowerCase x)"
    then obtain r where "res (toLowerCase x) = Some r" "\<not> cached r" "source r \<noteq> ''none''"
      using assms unfolding cacheFollows_def by blast
    moreover from this have "price r \<noteq> Num (Fin 0)"
      using assms unfolding cacheFollows_def by blast
    ultimately show False using True by (simp add: unpriced_def)
  qed
  show ?thesis
  proof (cases "pricedBy mo (toLowerCase x)")
    case None
    then have "moralisStep net x (res, st) =
            (res(toLowerCase x \<mapsto> \<lparr>price = Num (Fin 0), cached = False, source = ''none'',
                                    error = Some ''All sources failed''\<rparr>), s1)"
      using True mo by (simp add: moralisStep_def)
    then show ?thesis
      using assms c1 same unfolding cacheFollows_def by auto
  next
    case (Some p)
    then have nz: "p \<noteq> Num (Fin 0)" using pricedBy_truthy truthy_nonzero by blast
    have "moralisStep net x (res, st) =
            (res(toLowerCase x \<mapsto> \<lparr>price = p, cached = False, source = ''moralis'', error = None\<rparr>),
             setCachePrice x p ''moralis'' s1)"
      using True mo Some by (simp add: moralisStep_def)
    then show ?thesis
      using assms c1 nz unfolding cacheFollows_def setCachePrice_def by auto
  qed
qed

lemma fold_moralisStep_follows:
  assumes "cacheFollows s0 (fst acc) (snd acc)"
  shows "cacheFollows s0 (fst (fold (moralisStep net) xs acc))
           (snd (fold (moralisStep net) xs acc))"
  using assms
proof (induction xs arbitrary: acc)
  case Nil
  then show ?case by simp
next
  case (Cons x xs)
  have "cacheFollows s0 (fst (moralisStep net x acc)) (snd (moralisStep net x acc))"
    using moralisStep_follows[of s0 "fst acc" "snd acc" net x] Cons.prems by simp
  then show ?case using Cons.IH[of "moralisStep net x acc"] by simp
qed

lemma getTokenPrices_follows:
  "cacheFollows s (fst (getTokenPrices net as s)) (snd (getTokenPrices net as s))"
proof -
  obtain res0 unc where c: "fold (cacheStep s) as (Map.empty, []) = (res0, unc)" by fastforce
  have all_cached: "cached r" if "res0 k = Some r" for k r
    using fold_cacheStep_cached[of s as Map.empty "[]" k r] c that by simp
  have j0: "cacheFollows s res0 st" if "priceCache st = priceCache s" for st
    using that all_cached unfolding cacheFollows_def by auto
  show ?thesis
  proof (cases "unc = []")
    case True
    then show ?thesis using c j0[of s] by (simp add: getTokenPrices_def)
  next
    case False
    obtain cg s1 where cg: "fetchFromCoinGecko net unc s = (cg, s1)" by fastforce
    have c1: "priceCache s1 = priceCache s" using fetchFromCoinGecko_cache[of net unc s] cg by simp
    then have j1: "cacheFollows s res0 s1" by (rule j0)
    obtain res1 s2 where acc1:
      "(case cg of FetchOk prices \<Rightarrow> fold coinGeckoStep prices (res0, s1)
        | FetchFailed \<Rightarrow> (res0, s1)) = (res1, s2)" by fastforce
    have j2: "cacheFollows s res1 s2"
    proof (cases cg)
      case FetchFailed
      then show ?thesis using acc1 j1 by simp
    next
      case (FetchOk prices)
      then have "\<forall>(k, p)\<in>set prices. toLowerCase k = k"
        using fetchFromCoinGecko_lower_keys[of net unc s prices s1] cg by simp
      then show ?thesis
        using fold_coinGeckoStep_follows[of prices s "(res0, s1)"] j1 acc1 FetchOk by simp
    qed
    have final: "getTokenPrices net as s = fold (moralisStep net) unc (res1, s2)"
      using c cg acc1 False by (simp add: getTokenPrices_def)
    show ?thesis
      using fold_moralisStep_follows[of s "(res1, s2)" net unc] j2 final by simp
  qed
qed

subsection \<open>Selection and the prices its lookups return\<close>

lemma fold_processToken_state:
  "snd (fold (processToken eng net v) toks (sel, s)) =
     fold (\<lambda>t st. snd (getTokenPrice net (address t) st)) toks s"
proof (induction toks arbitrary: sel s)
  case Nil
  then show ?case by simp
next
  case (Cons t ts)
  show ?case
    by (cases "allocation eng v (price (fst (getTokenPrice net (address t) s))) t")
       (simp_all add: processToken_allocation Cons.IH)
qed

lemma pricesSeen_append:
  "pricesSeen net (xs @ ys) s =
     pricesSeen net xs s @
     pricesSeen net ys (fold (\<lambda>t st. snd (getTokenPrice net (address t) st)) xs s)"
  by (induction xs arbitrary: s) simp_all

lemma length_pricesSeen [simp]: "length (pricesSeen net toks s) = length toks"
  by (induction toks arbitrary: s) simp_all

lemma sponsorPass_lines:
  "fst (sponsorPass eng net sp sv (\<lparr>tokens = [], amounts = []\<rparr>, s)) =
     (let ls = allocations eng (fdiv sv (Fin (of_nat (length sp)))) sp (pricesSeen net sp s)
      in \<lparr>tokens = map fst ls, amounts = map snd ls\<rparr>)"
  by (cases "sp = []") (simp_all add: sponsorPass_def fold_processToken Let_def)

lemma sponsorPass_state:
  "snd (sponsorPass eng net sp sv (sel, s)) =
     fold (\<lambda>t st. snd (getTokenPrice net (address t) st)) sp s"
  by (cases "sp = []") (simp_all add: sponsorPass_def fold_processToken_state Let_def)

lemma otherPass_lines:
  "fst (otherPass eng net shuffle ns ov (sel, s)) =
     (let n = min 3 (length ns);
          so = (if 0 < n \<and> fless (Fin 0) ov then take n (shuffle ns) else []);
          ls = allocations eng (fdiv ov (Fin (of_nat n))) so (pricesSeen net so s)
      in \<lparr>tokens = tokens sel @ map fst ls, amounts = amounts sel @ map snd ls\<rparr>)"
  by (simp add: otherPass_def fold_processToken Let_def)

lemma selection_of_prices:
  "\<exists>F. \<forall>net s. fst (selectTokensForTier usdc eng net ch shuffle tier ev s) =
                  F (pricesSeen net (lookedUp ch shuffle ev) s)"
proof -
  define av where "av = getAvailableTokensInTreasury ch"
  define sp where "sp = filter (\<lambda>t. address t \<in> set (fetchSponsors ch)) av"
  define ns where "ns = filter (\<lambda>t. address t \<notin> set (fetchSponsors ch)) av"
  define half where "half = fmul (fdiv (ofBigInt ev) (Fin 1000000)) (Fin (1 / 2))"
  define n where "n = min 3 (length ns)"
  define so where "so = (if 0 < n \<and> fless (Fin 0) half then take n (shuffle ns) else [])"
  define L where "L = (\<lambda>ps. allocations eng (fdiv half (Fin (of_nat (length sp)))) sp
                              (take (length sp) ps) @
                            allocations eng (fdiv half (Fin (of_nat n))) so (drop (length sp) ps))"
  define fallback :: "js_error + selection" where
    "fallback = Inr \<lparr>tokens = [usdc], amounts = [ev]\<rparr>"
  define F where "F = (\<lambda>ps. if av = [] then fallback
                             else (case fallbackStep av ev
                                          \<lparr>tokens = map fst (L ps), amounts = map snd (L ps)\<rparr> of
                                     Inl e \<Rightarrow> fallback
                                   | Inr sel \<Rightarrow> Inr sel))"
  have lk: "lookedUp ch shuffle ev = sp @ so"
    unfolding lookedUp_def av_def sp_def ns_def half_def n_def so_def by (simp add: Let_def)
  have "fst (selectTokensForTier usdc eng net ch shuffle tier ev s) =
          F (pricesSeen net (lookedUp ch shuffle ev) s)" for net s
  proof (cases "av = []")
    case True
    then show ?thesis
      unfolding av_def F_def fallback_def
      by (simp add: selectTokensForTier_def selectTokensForTier_try_def)
  next
    case False
    define s1 where "s1 = fold (\<lambda>t st. snd (getTokenPrice net (address t) st)) sp s"
    define ps where "ps = pricesSeen net (sp @ so) s"
    have tk: "take (length sp) ps = pricesSeen net sp s"
      and dr: "drop (length sp) ps = pricesSeen net so s1"
      unfolding ps_def s1_def by (simp_all add: pricesSeen_append)
    obtain sel1 st1 where p1:
      "sponsorPass eng net sp half (\<lparr>tokens = [], amounts = []\<rparr>, s) = (sel1, st1)"
      by fastforce
    have st1: "st1 = s1"
      using sponsorPass_state[of eng net sp half "\<lparr>tokens = [], amounts = []\<rparr>" s] p1
      by (simp add: s1_def)
    have sel1: "sel1 = \<lparr>tokens = map fst (allocations eng (fdiv half (Fin (of_nat (length sp)))) sp
                                          (pricesSeen net sp s)),
                        amounts = map snd (allocations eng (fdiv half (Fin (of_nat (length sp)))) sp
                                          (pricesSeen net sp s))\<rparr>"
      using sponsorPass_lines[of eng net sp half s] p1 by (simp add: Let_def)
    obtain sel2 st2 where p2: "otherPass eng net shuffle ns half (sel1, st1) = (sel2, st2)"
      by fastforce
    have sel2: "sel2 = \<lparr>tokens = map fst (L ps), amounts = map snd (L ps)\<rparr>"
      using otherPass_lines[of eng net shuffle ns half sel1 st1] p2 sel1 st1
      unfolding L_def tk dr so_def n_def by (simp add: Let_def)
    have tried: "fst (selectTokensForTier_try eng net ch shuffle tier ev s) =
                 (case fallbackStep av ev sel2 of Inl e \<Rightarrow> Inl e | Inr sel3 \<Rightarrow> Inr sel3)"
      using False p1 p2
      unfolding av_def sp_def ns_def half_def
      by (simp add: selectTokensForTier_try_def Let_def split: prod.splits sum.splits)
    have "fst (selectTokensForTier usdc eng net ch shuffle tier ev s) =
            (case fallbackStep av ev sel2 of Inl e \<Rightarrow> fallback | Inr sel3 \<Rightarrow> Inr sel3)"
      using tried
      by (cases "selectTokensForTier_try eng net ch shuffle tier ev s")
         (auto simp: selectTokensForTier_def fallback_def split: sum.splits)
    then show ?thesis
      using False sel2 unfolding F_def lk ps_def by simp
  qed
  then show ?thesis by blast
qed

section \<open>The claims\<close>

subsection \<open>C1: lines and treasury balances\<close>

text \<open>
  C1. At an empty treasury (every watched token has balance zero) and an estimated value
  of 100 USDC, the selection returned is the configured USDC address with amount
  \<open>100000000\<close>, while the treasury holds no USDC: the line exceeds the balance. (On
  every other path the lines are within the balances: lemma
  \<open>lines_within_balance_when_treasury_nonempty\<close>.)
\<close>

theorem empty_treasury_line_exceeds_balance:
  "fst (selectTokensForTier USDC roundedEngine (flatNet (Fin 1)) emptyChain id 2 100000000
          coldOracle) =
     Inr \<lparr>tokens = [USDC], amounts = [100000000]\<rparr> \<and>
   getTokenBalance emptyChain USDC = Some 0"
  by code_simp

subsection \<open>C2: the empty treasury\<close>

text \<open>
  C2. When no watched token is available, the \<^verbatim>\<open>try\<close> block throws
  \<^verbatim>\<open>Error("No tokens available in TokenTreasury")\<close>, but the handler of
  \<^verbatim>\<open>selectTokensForTier\<close> catches it: the function returns the configured USDC address
  with the estimated value as amount, and no error reaches the caller.
\<close>

theorem empty_treasury_error_is_swallowed:
  assumes "getAvailableTokensInTreasury ch = []"
  shows "fst (selectTokensForTier_try eng net ch shuffle tier estimatedValue s) =
           Inl (Error ''No tokens available in TokenTreasury'') \<and>
         selectTokensForTier usdc eng net ch shuffle tier estimatedValue s =
           (Inr \<lparr>tokens = [usdc], amounts = [estimatedValue]\<rparr>, s)"
  using selectTokensForTier_try_empty[OF assms]
  by (simp add: selectTokensForTier_def)

theorem empty_treasury_error_is_swallowed_witness:
  "getAvailableTokensInTreasury emptyChain = [] \<and>
   selectTokensForTier USDC roundedEngine deadNet emptyChain id 1 10000000 coldOracle =
     (Inr \<lparr>tokens = [USDC], amounts = [10000000]\<rparr>, coldOracle)"
proof -
  have h: "getAvailableTokensInTreasury emptyChain = []" by code_simp
  from empty_treasury_error_is_swallowed[OF h] h show ?thesis by simp
qed

subsection \<open>C3: scenario A\<close>

text \<open>
  C3. Scenario A: the treasury holds 10,000 USDC and nothing else, USDC is priced at one
  dollar, there are no sponsors and the target is 100 dollars. The selection is one line
  for USDC with amount \<open>50000000\<close>: the other tokens get half the target, and the
  sponsor half goes to nobody.
\<close>

theorem scenario_A_allocates_half:
  "fst (selectTokensForTier USDC roundedEngine (flatNet (Fin 1)) chainA id 2 100000000
          coldOracle) =
     Inr \<lparr>tokens = [USDC], amounts = [50000000]\<rparr>"
  by code_simp

subsection \<open>C4: the sponsor pass\<close>

text \<open>
  C4. Two sponsor tokens are in the treasury, USDC and DEGEN; the lookups price USDC at one
  dollar and DEGEN not at all (price zero); the target is 100 dollars. DEGEN is skipped,
  and USDC, the one priced sponsor token, gets \<open>25000000\<close>, a quarter of the target: the
  sponsor budget of 50 dollars is divided by two, the number of sponsor tokens in the
  treasury, and the share of the unpriced token goes to nobody. Divided among the priced
  sponsor tokens, the budget would give USDC \<open>50000000\<close>.
\<close>

theorem unpriced_sponsor_share_is_dropped:
  "fst (selectTokensForTier USDC roundedEngine usdcOnlyNet twoSponsorChain id 2 100000000
          coldOracle) =
     Inr \<lparr>tokens = [USDC], amounts = [25000000]\<rparr> \<and>
   map address (sponsorTokensInTreasuryOf twoSponsorChain) = [USDC, DEGEN] \<and>
   pricesSeen usdcOnlyNet (sponsorTokensInTreasuryOf twoSponsorChain) coldOracle =
     [Num (Fin 1), Num (Fin 0)]"
  by code_simp

subsection \<open>C5: the amount of a line\<close>

text \<open>
  C5, as amended. Let the lookup of a token return the price \<open>p\<close>, let the token's share be
  \<open>v\<close>, and let the product of the double quotient of \<open>v\<close> by the number that \<open>p\<close> stands
  for with the engine's power \<^verbatim>\<open>10 ** decimals\<close>, computed in double arithmetic, be the
  finite number \<open>x\<close>, with \<open>\<lfloor>x\<rfloor>\<close> within the balance (the case without clamping). Then the
  loop body, which both passes run, appends the line with amount \<open>\<lfloor>x\<rfloor>\<close>: the floor of
  the doubles' product, as an integer of arbitrary precision. The amount is not negative
  when the share is not negative, the price is above zero and the power of ten is not
  negative.
\<close>

theorem amount_is_floor_of_double_product:
  assumes "price (fst (getTokenPrice net (address tok) s)) = p"
      and "fmul (fdiv v (toNumber p)) (pow10 eng (decimals tok)) = Fin x"
      and "\<lfloor>x\<rfloor> \<le> balance tok"
  shows "fst (processToken eng net v tok (sel, s)) =
           \<lparr>tokens = tokens sel @ [address tok], amounts = amounts sel @ [\<lfloor>x\<rfloor>]\<rparr> \<and>
         (\<forall>a b w. v = Fin a \<and> 0 \<le> a \<and> toNumber p = Fin b \<and> 0 < b \<and>
                  pow10 eng (decimals tok) = Fin w \<and> 0 \<le> w \<longrightarrow> 0 \<le> \<lfloor>x\<rfloor>)"
proof -
  obtain q w where qw: "fdiv v (toNumber p) = Fin q" "pow10 eng (decimals tok) = Fin w"
    "toDouble (q * w) = Fin x"
    using assms(2) by (rule fmul_Fin)
  have nz: "p \<noteq> Num (Fin 0)"
  proof
    assume "p = Num (Fin 0)"
    then show False using qw(1) by (cases v) (auto split: if_splits)
  qed
  have "allocation eng v p tok = Some (address tok, \<lfloor>x\<rfloor>)"
    using nz assms(2,3) by (simp add: allocation_def tokenAmountOf_def)
  then have line: "fst (processToken eng net v tok (sel, s)) =
                     \<lparr>tokens = tokens sel @ [address tok], amounts = amounts sel @ [\<lfloor>x\<rfloor>]\<rparr>"
    using assms(1) by (simp add: processToken_allocation)
  have "0 \<le> \<lfloor>x\<rfloor>"
    if h: "v = Fin a" "0 \<le> a" "toNumber p = Fin b" "0 < b"
          "pow10 eng (decimals tok) = Fin w'" "0 \<le> w'" for a b w'
  proof -
    have "0 \<le> q" using h(2,4) qw(1) unfolding h(1,3) by (rule fdiv_pos_nonneg)
    moreover have "0 \<le> w" using h(5,6) qw(2) by simp
    ultimately have "0 \<le> x" using toDouble_nonneg[of "q * w" x] qw(3) by simp
    then show ?thesis by simp
  qed
  then show ?thesis using line by blast
qed

theorem amount_is_floor_of_double_product_witness:
  "fst (processToken roundedEngine (flatNet (Fin 3)) (Fin 50)
          \<lparr>address = DAI, balance = 1000000000000000000000000, decimals = 18, symbol = ''DAI''\<rparr>
          (\<lparr>tokens = [], amounts = []\<rparr>, coldOracle)) =
     \<lparr>tokens = [DAI], amounts = [16666666666666668032]\<rparr>"
proof -
  define tok where "tok = \<lparr>address = DAI, balance = 1000000000000000000000000, decimals = 18, symbol = ''DAI''\<rparr>"
  have h1: "price (fst (getTokenPrice (flatNet (Fin 3)) (address tok) coldOracle)) = Num (Fin 3)"
    unfolding tok_def by code_simp
  have h2: "fmul (fdiv (Fin 50) (toNumber (Num (Fin 3)))) (pow10 roundedEngine (decimals tok)) =
              Fin 16666666666666668032"
    unfolding tok_def by code_simp
  have h3: "\<lfloor>16666666666666668032 :: rat\<rfloor> \<le> balance tok" by (simp add: tok_def)
  from amount_is_floor_of_double_product[OF h1 h2 h3, of "\<lparr>tokens = [], amounts = []\<rparr>"]
  show ?thesis by (simp add: tok_def)
qed

text \<open>
  C5 as stated fails twice. For a share of 50 dollars at a price of 3 dollars and 18
  decimals the amount returned is \<open>16666666666666668032\<close>, while the floor of the exact
  rational \<open>50 / 3 * 10 ^ 18\<close> is \<open>16666666666666666666\<close>. And at a price of minus one
  dollar, which the single lookup takes from CoinGecko, scenario A returns the amount
  \<open>-50000000\<close>.
\<close>

theorem amount_differs_from_exact_floor:
  "fst (selectTokensForTier USDC roundedEngine (flatNet (Fin 3)) daiChain id 2 100000000
          coldOracle) =
     Inr \<lparr>tokens = [DAI], amounts = [16666666666666668032]\<rparr> \<and>
   \<lfloor>(50 :: rat) / 3 * 10 ^ 18\<rfloor> = 16666666666666666666 \<and>
   fst (selectTokensForTier USDC roundedEngine (flatNet (Fin (- 1))) chainA id 2 100000000
          coldOracle) =
     Inr \<lparr>tokens = [USDC], amounts = [- 50000000]\<rparr>"
  by code_simp

subsection \<open>C6: the cache and its time to live\<close>

text \<open>
  C6. Let a lookup of \<open>a\<close> fetch a price and cache it (\<open>r\<close> is not served from the cache and
  has a source), ending in state \<open>s1\<close>, so that the entry is stamped \<open>T = clock s1\<close>. In any
  later state \<open>s2\<close> that still has this entry, whatever the network does: a lookup at a
  time \<open>t\<close> with \<open>T \<le> t < T + CACHE_TTL\<close> returns the same price and source, marked
  cached, and leaves the state as it is, so it sends no request to either source; a lookup at
  \<open>t \<ge> T + CACHE_TTL\<close> is not served from the cache and sends a new request to CoinGecko.
\<close>

theorem cached_price_served_until_ttl:
  assumes "getTokenPrice net a s0 = (r, s1)" and "\<not> cached r" and "source r \<noteq> ''none''"
      and "priceCache s2 (toLowerCase a) = priceCache s1 (toLowerCase a)"
  shows "(clock s1 \<le> clock s2 \<and> clock s2 < clock s1 + CACHE_TTL \<longrightarrow>
            getTokenPrice net' a s2 = (r\<lparr>cached := True\<rparr>, s2)) \<and>
         (clock s1 + CACHE_TTL \<le> clock s2 \<longrightarrow>
            \<not> cached (fst (getTokenPrice net' a s2)) \<and>
            (\<exists>rest. requests (snd (getTokenPrice net' a s2)) =
               requests s2 @ CoinGeckoRequest [toLowerCase a] # rest))"
proof -
  from getTokenPrice_fetched_entry[OF assms(1-3)] assms(4)
  have e: "priceCache s2 (toLowerCase a) =
             Some \<lparr>entry_price = price r, entry_source = source r, timestamp = clock s1\<rparr>"
    and n: "error r = None" by simp_all
  have hit: "getCachedPrice a s2 = Some (r\<lparr>cached := True\<rparr>)"
    if "clock s2 < clock s1 + CACHE_TTL"
    using that e n by (simp add: getCachedPrice_def)
  have miss: "getCachedPrice a s2 = None" if "clock s1 + CACHE_TTL \<le> clock s2"
    using that e by (simp add: getCachedPrice_def)
  show ?thesis
    using hit miss getTokenPrice_hit getTokenPrice_miss_requests getTokenPrice_miss_cached
    by auto
qed

theorem cached_price_served_until_ttl_witness:
  "fst (getTokenPrice deadNet ''0xAb''
          ((snd (getTokenPrice (flatNet (Fin 2)) ''0xAb'' coldOracle))\<lparr>clock := 1200000\<rparr>)) =
     \<lparr>price = Num (Fin 2), cached = True, source = ''coingecko'', error = None\<rparr> \<and>
   \<not> cached (fst (getTokenPrice deadNet ''0xAb''
          ((snd (getTokenPrice (flatNet (Fin 2)) ''0xAb'' coldOracle))\<lparr>clock := 1400000\<rparr>)))"
proof -
  define r where "r = fst (getTokenPrice (flatNet (Fin 2)) ''0xAb'' coldOracle)"
  define s1 where "s1 = snd (getTokenPrice (flatNet (Fin 2)) ''0xAb'' coldOracle)"
  have r: "r = \<lparr>price = Num (Fin 2), cached = False, source = ''coingecko'', error = None\<rparr>"
    unfolding r_def by code_simp
  have c: "clock s1 = 1000100" unfolding s1_def by code_simp
  have h1: "getTokenPrice (flatNet (Fin 2)) ''0xAb'' coldOracle = (r, s1)"
    by (simp add: r_def s1_def)
  have h2: "\<not> cached r" and h3: "source r \<noteq> ''none''" by (simp_all add: r)
  have a: "getTokenPrice deadNet ''0xAb'' (s1\<lparr>clock := 1200000\<rparr>) =
             (r\<lparr>cached := True\<rparr>, s1\<lparr>clock := 1200000\<rparr>)"
    using cached_price_served_until_ttl[OF h1 h2 h3, of "s1\<lparr>clock := 1200000\<rparr>" deadNet] c
    by (simp add: CACHE_TTL_def)
  have b: "\<not> cached (fst (getTokenPrice deadNet ''0xAb'' (s1\<lparr>clock := 1400000\<rparr>)))"
    using cached_price_served_until_ttl[OF h1 h2 h3, of "s1\<lparr>clock := 1400000\<rparr>" deadNet] c
    by (simp add: CACHE_TTL_def)
  show ?thesis using a b by (simp add: r s1_def)
qed

subsection \<open>C7: failover to the fallback source\<close>

text \<open>
  C7. CoinGecko answers with a price of minus one dollar, and Moralis would price the
  token at five. The single lookup tests the CoinGecko price for truthiness only: it
  returns minus one with source \<open>coingecko\<close>, and the one request it sends is the CoinGecko
  one; Moralis is not asked. The batch lookup, at the same input, requires a price above
  zero of CoinGecko: it asks Moralis for the address and returns five with source
  \<open>moralis\<close>.
\<close>

theorem negative_price_skips_fallback:
  "fst (getTokenPrice negativeNet ''0xAb'' coldOracle) =
     \<lparr>price = Num (Fin (- 1)), cached = False, source = ''coingecko'', error = None\<rparr> \<and>
   requests (snd (getTokenPrice negativeNet ''0xAb'' coldOracle)) =
     [CoinGeckoRequest [''0xab'']] \<and>
   fst (getTokenPrices negativeNet [''0xAb''] coldOracle) ''0xab'' =
     Some \<lparr>price = Num (Fin 5), cached = False, source = ''moralis'', error = None\<rparr> \<and>
   requests (snd (getTokenPrices negativeNet [''0xAb''] coldOracle)) =
     [CoinGeckoRequest [''0xab''], MoralisRequest ''0xAb'']"
  by code_simp

subsection \<open>C8: the value of a wallet\<close>

text \<open>
  C8, as amended. \<^verbatim>\<open>calculateWalletValue\<close> looks the prices of its tokens up with one
  batch lookup and returns one value line for each token, in order, which is the line
  \<open>lineOf\<close> of the token at the results of that lookup: with a price above zero, the
  amount over the power of ten of the decimals, times the price. The total is the sum, in
  double arithmetic, of the values of the lines that have a price above zero. The call
  never changes the token snapshot, which is state of the price cache service and out of
  the reach of the price oracle. It leaves the state of the oracle as it is exactly when
  every token it is given has a live cache entry. Otherwise it sends one CoinGecko
  request for the addresses that the cache does not serve, followed by Moralis requests of
  one address each, for entries of that list in their order. Afterwards the price cache
  differs from what it was only at keys for which a price was fetched, and every price
  that was fetched is in the cache, with its source.
\<close>

theorem wallet_value_frame:
  "tokenValues (fst (calculateWalletValue eng net toks s)) =
     map (lineOf eng (fst (getTokenPrices net (map wt_address toks) s))) toks \<and>
   totalValue (fst (calculateWalletValue eng net toks s)) =
     foldl fadd (Fin 0)
       (map tv_usd (filter (\<lambda>l. fless (Fin 0) (toNumber (tv_price l)))
          (tokenValues (fst (calculateWalletValue eng net toks s))))) \<and>
   snapshot (snd (calculateWalletValue eng net toks s)) = snapshot s \<and>
   (snd (calculateWalletValue eng net toks s) = s \<longleftrightarrow>
      (\<forall>t\<in>set toks. getCachedPrice (wt_address t) s \<noteq> None)) \<and>
   ((\<exists>t\<in>set toks. getCachedPrice (wt_address t) s = None) \<longrightarrow>
      (\<exists>xs. subseq xs (uncachedOf s (map wt_address toks)) \<and>
         requests (snd (calculateWalletValue eng net toks s)) =
           requests s @ CoinGeckoRequest (map toLowerCase (uncachedOf s (map wt_address toks))) #
             map MoralisRequest xs)) \<and>
   cacheFollows s (fst (getTokenPrices net (map wt_address toks) s))
     (snd (calculateWalletValue eng net toks s))"
proof -
  obtain prices s' where g: "getTokenPrices net (map wt_address toks) s = (prices, s')"
    by fastforce
  have w: "calculateWalletValue eng net toks s =
             (fold (valueStep eng prices) toks \<lparr>totalValue = Fin 0, tokenValues = []\<rparr>, s')"
    using g by (simp add: calculateWalletValue_def)
  have 1: "tokenValues (fold (valueStep eng prices) toks \<lparr>totalValue = Fin 0, tokenValues = []\<rparr>) =
             map (lineOf eng prices) toks"
    by (simp add: fold_valueStep_lines)
  have 2: "totalValue (fold (valueStep eng prices) toks \<lparr>totalValue = Fin 0, tokenValues = []\<rparr>) =
     foldl fadd (Fin 0)
       (map tv_usd (filter (\<lambda>l. fless (Fin 0) (toNumber (tv_price l)))
          (tokenValues (fold (valueStep eng prices) toks \<lparr>totalValue = Fin 0, tokenValues = []\<rparr>))))"
    by (rule fold_valueStep_total) simp
  have 3: "snapshot s' = snapshot s"
    using getTokenPrices_snapshot[of net "map wt_address toks" s] g by simp
  have live: "s' = s" if "\<forall>t\<in>set toks. getCachedPrice (wt_address t) s \<noteq> None"
    using getTokenPrices_all_cached[of "map wt_address toks" s net] that g by simp
  have miss: "\<exists>xs. subseq xs (uncachedOf s (map wt_address toks)) \<and>
         requests s' =
           requests s @ CoinGeckoRequest (map toLowerCase (uncachedOf s (map wt_address toks))) #
             map MoralisRequest xs"
    if "\<exists>t\<in>set toks. getCachedPrice (wt_address t) s = None"
  proof -
    have "uncachedOf s (map wt_address toks) \<noteq> []"
      using that by (auto simp: uncachedOf_def filter_empty_conv)
    then show ?thesis
      using getTokenPrices_requests[of s "map wt_address toks" net] g by simp
  qed
  have 4: "s' = s \<longleftrightarrow> (\<forall>t\<in>set toks. getCachedPrice (wt_address t) s \<noteq> None)"
  proof
    assume e: "s' = s"
    show "\<forall>t\<in>set toks. getCachedPrice (wt_address t) s \<noteq> None"
    proof (rule ccontr)
      assume "\<not> (\<forall>t\<in>set toks. getCachedPrice (wt_address t) s \<noteq> None)"
      then have "\<exists>t\<in>set toks. getCachedPrice (wt_address t) s = None" by simp
      then obtain xs where "requests s' =
           requests s @ CoinGeckoRequest (map toLowerCase (uncachedOf s (map wt_address toks))) #
             map MoralisRequest xs"
        using miss by blast
      then show False using e by simp
    qed
  next
    assume "\<forall>t\<in>set toks. getCachedPrice (wt_address t) s \<noteq> None"
    then show "s' = s" by (rule live)
  qed
  have 5: "cacheFollows s prices s'"
    using getTokenPrices_follows[of s net "map wt_address toks"] g by simp
  show ?thesis
    unfolding w g fst_conv snd_conv using 1 2 3 4 5 miss by blast
qed

theorem wallet_value_frame_witness:
  "getCachedPrice USDC staleOracle \<noteq> None \<and>
   tokenValues (fst (calculateWalletValue roundedEngine deadNet
          [\<lparr>wt_address = USDC, wt_amount = Some 50000000, wt_decimals = Some 6\<rparr>] staleOracle)) =
     [\<lparr>tv_address = USDC, tv_amount = Fin 50, tv_price = Num (Fin 1), tv_usd = Fin 50,
       tv_source = ''coingecko''\<rparr>] \<and>
   snd (calculateWalletValue roundedEngine deadNet
          [\<lparr>wt_address = USDC, wt_amount = Some 50000000, wt_decimals = Some 6\<rparr>] staleOracle) =
     staleOracle"
proof -
  define toks where
    "toks = [\<lparr>wt_address = USDC, wt_amount = Some 50000000, wt_decimals = Some 6\<rparr>]"
  have h: "getCachedPrice USDC staleOracle \<noteq> None" by code_simp
  have l: "map (lineOf roundedEngine (fst (getTokenPrices deadNet (map wt_address toks) staleOracle)))
             toks =
           [\<lparr>tv_address = USDC, tv_amount = Fin 50, tv_price = Num (Fin 1), tv_usd = Fin 50,
             tv_source = ''coingecko''\<rparr>]"
    unfolding toks_def by code_simp
  have a: "\<forall>t\<in>set toks. getCachedPrice (wt_address t) staleOracle \<noteq> None"
    using h by (simp add: toks_def)
  from wallet_value_frame[of roundedEngine deadNet toks staleOracle] a l h
  show ?thesis unfolding toks_def by simp
qed

text \<open>
  C8 as stated fails: on a cold cache the call fetches the price of the token and writes
  it to the price cache.
\<close>

theorem wallet_value_writes_cache:
  "priceCache coldOracle ''0xab'' = None \<and>
   map_option entry_price
     (priceCache (snd (calculateWalletValue roundedEngine (flatNet (Fin 2))
        [\<lparr>wt_address = ''0xAb'', wt_amount = Some 5, wt_decimals = Some 0\<rparr>] coldOracle)) ''0xab'') =
     Some (Num (Fin 2))"
  by code_simp

subsection \<open>C9: determinism\<close>

text \<open>
  C9. The snapshot of the claim is the list of the tokens that the treasury holds together
  with the prices that the lookups of a selection return for them. Let two calls be made
  with the same chain reads (treasury tokens and sponsor set), the same request and the
  same draw, from any two states of the price oracle and against any two behaviours of
  the price sources, and let their lookups return the same prices, token for token. Then
  the two calls return the same tokens and amounts: for given chain reads, request and
  draw, the result of a call is a function of the prices that its lookups return. What a
  call finds in the price cache, and what it writes there, bears on its result only
  through those prices.
\<close>

theorem selection_determined_by_snapshot:
  assumes "pricesSeen net (lookedUp ch shuffle estimatedValue) s =
           pricesSeen net' (lookedUp ch shuffle estimatedValue) s'"
  shows "fst (selectTokensForTier usdc eng net ch shuffle tier estimatedValue s) =
         fst (selectTokensForTier usdc eng net' ch shuffle tier estimatedValue s') \<and>
         (\<exists>F. \<forall>net0 s0.
            fst (selectTokensForTier usdc eng net0 ch shuffle tier estimatedValue s0) =
            F (pricesSeen net0 (lookedUp ch shuffle estimatedValue) s0))"
proof -
  obtain F where F: "\<forall>net s. fst (selectTokensForTier usdc eng net ch shuffle tier estimatedValue s) =
                    F (pricesSeen net (lookedUp ch shuffle estimatedValue) s)"
    using selection_of_prices[of usdc eng ch shuffle tier estimatedValue] by blast
  then have "fst (selectTokensForTier usdc eng net ch shuffle tier estimatedValue s) =
             fst (selectTokensForTier usdc eng net' ch shuffle tier estimatedValue s')"
    using assms by simp
  then show ?thesis using F by blast
qed

theorem selection_determined_by_snapshot_witness:
  "fst (selectTokensForTier USDC roundedEngine (flatNet (Fin 1)) chainA rev 2 100000000 coldOracle) =
     fst (selectTokensForTier USDC roundedEngine deadNet chainA rev 2 100000000 staleOracle) \<and>
   fst (selectTokensForTier USDC roundedEngine (flatNet (Fin 1)) chainA rev 2 100000000 coldOracle) =
     fst (selectTokensForTier USDC roundedEngine (flatNet (Fin 1)) chainA rev 2 100000000
            (staleOracle\<lparr>clock := 1300000\<rparr>))"
proof -
  have cold: "pricesSeen (flatNet (Fin 1)) (lookedUp chainA rev 100000000) coldOracle =
                [Num (Fin 1)]"
    by code_simp
  have warm: "pricesSeen deadNet (lookedUp chainA rev 100000000) staleOracle = [Num (Fin 1)]"
    by code_simp
  have expired: "pricesSeen (flatNet (Fin 1)) (lookedUp chainA rev 100000000)
                   (staleOracle\<lparr>clock := 1300000\<rparr>) = [Num (Fin 1)]"
    by code_simp
  have a: "pricesSeen (flatNet (Fin 1)) (lookedUp chainA rev 100000000) coldOracle =
           pricesSeen deadNet (lookedUp chainA rev 100000000) staleOracle"
    using cold warm by simp
  have b: "pricesSeen (flatNet (Fin 1)) (lookedUp chainA rev 100000000) coldOracle =
           pricesSeen (flatNet (Fin 1)) (lookedUp chainA rev 100000000)
             (staleOracle\<lparr>clock := 1300000\<rparr>)"
    using cold expired by simp
  from selection_determined_by_snapshot[OF a, of USDC roundedEngine 2]
       selection_determined_by_snapshot[OF b, of USDC roundedEngine 2]
  show ?thesis by blast
qed

subsection \<open>C10: what is written to the cache\<close>

text \<open>
  C10. CoinGecko answers with a price of minus one dollar, and Moralis would price the
  token at five. The single lookup, which tests the fetched price for truthiness only,
  writes minus one to the cache with source \<open>coingecko\<close>. The batch lookup, which requires
  a price above zero of CoinGecko, leaves that price out at the same input and caches the
  Moralis price. The test on a Moralis price is for truthiness in both lookups: when
  Moralis answers with a price of zero as a number and as the string \<^verbatim>\<open>"0"\<close>, the
  string is written to the cache with source \<open>moralis\<close>.
\<close>

theorem negative_price_is_cached:
  "priceCache (snd (getTokenPrice negativeNet ''0xAb'' coldOracle)) ''0xab'' =
     Some \<lparr>entry_price = Num (Fin (- 1)), entry_source = ''coingecko'', timestamp = 1000100\<rparr> \<and>
   priceCache (snd (getTokenPrices negativeNet [''0xAb''] coldOracle)) ''0xab'' =
     Some \<lparr>entry_price = Num (Fin 5), entry_source = ''moralis'', timestamp = 1000200\<rparr> \<and>
   priceCache (snd (getTokenPrice zeroStringNet ''0xAb'' coldOracle)) ''0xab'' =
     Some \<lparr>entry_price = Str ''0'', entry_source = ''moralis'', timestamp = 1000200\<rparr>"
  by code_simp

end
